theory Spec2Isabelle
  imports Main
begin

section \<open>Exceptions\<close>

text \<open>
  Every failure of the scrapers is a Python exception.  All classes below derive from
  \<open>Exception\<close>, so an \<open>except Exception\<close> handler (and a bare \<open>except\<close>) catches each of
  them.  \<open>Exception msg\<close> is the plain \<open>raise Exception(msg)\<close> of the sources.
\<close>

datatype exn =
    Exception string
  | OverflowError
  | ValueError
  | TypeError
  | AttributeError
  | PlaywrightTimeout
  | PlaywrightError
  | SeleniumTimeout
  | NoSuchElement
  | HTTPError
  | ConnectionError
  | ValidationError
  | IndexError

section \<open>Characters and strings\<close>

text \<open>
  A Python \<open>str\<close> is a sequence of code points.  The model covers the code points
  U+0000 to U+00FF: a \<^typ>\<open>char\<close> is one code point, \<open>code c\<close> its number.  The three
  classes below are Python's \<open>str.isspace\<close> (also \<open>\s\<close> of \<open>re\<close>), \<open>\d\<close> and \<open>\w\<close> on that
  range, and \<open>lower_chr\<close> is \<open>str.lower\<close> on one character.
\<close>

definition code :: "char \<Rightarrow> nat" where
  "code c = of_char c"

definition is_space :: "char \<Rightarrow> bool" where
  "is_space c = (let n = code c in
     (9 \<le> n \<and> n \<le> 13) \<or> (28 \<le> n \<and> n \<le> 32) \<or> n = 133 \<or> n = 160)"

definition is_digit :: "char \<Rightarrow> bool" where
  "is_digit c = (let n = code c in 48 \<le> n \<and> n \<le> 57)"

definition is_word :: "char \<Rightarrow> bool" where
  "is_word c = (let n = code c in
     (48 \<le> n \<and> n \<le> 57) \<or> (65 \<le> n \<and> n \<le> 90) \<or> n = 95 \<or> (97 \<le> n \<and> n \<le> 122) \<or>
     n = 170 \<or> n = 178 \<or> n = 179 \<or> n = 181 \<or> n = 185 \<or> n = 186 \<or>
     (188 \<le> n \<and> n \<le> 190) \<or> (192 \<le> n \<and> n \<noteq> 215 \<and> n \<noteq> 247))"

definition is_upper :: "char \<Rightarrow> bool" where
  "is_upper c = (let n = code c in
     (65 \<le> n \<and> n \<le> 90) \<or> (192 \<le> n \<and> n \<le> 222 \<and> n \<noteq> 215))"

definition lower_chr :: "char \<Rightarrow> char" where
  "lower_chr c = (if is_upper c then char_of (code c + 32) else c)"

definition lower :: "string \<Rightarrow> string" where
  "lower s = map lower_chr s"

text \<open>\<open>s.strip()\<close>: leading and trailing whitespace removed.\<close>

definition strip :: "string \<Rightarrow> string" where
  "strip s = rev (dropWhile is_space (rev (dropWhile is_space s)))"

text \<open>\<open>s.replace(a, b)\<close> for one-character \<open>a\<close> and \<open>b\<close>.\<close>

definition replace_chr :: "char \<Rightarrow> char \<Rightarrow> string \<Rightarrow> string" where
  "replace_chr a b s = map (\<lambda>c. if c = a then b else c) s"

text \<open>\<open>s.split()\<close>: the maximal runs of non-whitespace characters, in order.\<close>

fun split_acc :: "string \<Rightarrow> string \<Rightarrow> string list" where
  "split_acc cur [] = (if cur = [] then [] else [rev cur])"
| "split_acc cur (c # cs) =
     (if is_space c then (if cur = [] then split_acc [] cs else rev cur # split_acc [] cs)
      else split_acc (c # cur) cs)"

definition split_ws :: "string \<Rightarrow> string list" where
  "split_ws s = split_acc [] s"

text \<open>\<open>sep.join(xs)\<close>.\<close>

fun join :: "string \<Rightarrow> string list \<Rightarrow> string" where
  "join sep [] = []"
| "join sep [x] = x"
| "join sep (x # y # ys) = x @ sep @ join sep (y # ys)"

text \<open>\<open>s.startswith(p)\<close> and the substring test \<open>a in b\<close>.\<close>

fun startswith :: "string \<Rightarrow> string \<Rightarrow> bool" where
  "startswith s [] = True"
| "startswith [] (p # ps) = False"
| "startswith (c # cs) (p # ps) = (c = p \<and> startswith cs ps)"

fun str_in :: "string \<Rightarrow> string \<Rightarrow> bool" where
  "str_in a [] = (a = [])"
| "str_in a (c # cs) = (startswith (c # cs) a \<or> str_in a cs)"

text \<open>Python truthiness of an optional string: \<open>None\<close> and \<open>""\<close> are falsy.\<close>

fun truthy :: "string option \<Rightarrow> bool" where
  "truthy None = False"
| "truthy (Some s) = (s \<noteq> [])"

section \<open>Regular expressions\<close>

text \<open>
  The patterns of the sources are built from character classes, concatenation,
  alternation, greedy \<open>?\<close>, greedy \<open>+\<close> and \<open>*\<close> and lazy \<open>*?\<close> over one class, and the word
  boundary \<open>\b\<close>.  A position in the subject is the character before it (if any) and the
  text after it.  \<open>ends r x\<close> lists the positions at which a match of \<open>r\<close> starting at \<open>x\<close>
  can end, in the order in which Python's backtracking matcher tries them; the match
  that \<open>re\<close> reports is the first.
\<close>

datatype regex =
    Eps
  | Chr "char \<Rightarrow> bool"
  | Cat regex regex
  | Alt regex regex
  | Opt regex
  | Many1 "char \<Rightarrow> bool"
  | Many0 "char \<Rightarrow> bool"
  | Lazy0 "char \<Rightarrow> bool"
  | WordB

type_synonym pos = "char option \<times> string"

text \<open>The positions after 0, 1, 2, ... characters of the class, shortest first.\<close>

fun run_ends :: "(char \<Rightarrow> bool) \<Rightarrow> char option \<Rightarrow> string \<Rightarrow> pos list" where
  "run_ends P prev [] = [(prev, [])]"
| "run_ends P prev (c # cs) =
     (prev, c # cs) # (if P c then run_ends P (Some c) cs else [])"

definition at_boundary :: "pos \<Rightarrow> bool" where
  "at_boundary x =
     ((case fst x of None \<Rightarrow> False | Some c \<Rightarrow> is_word c) \<noteq>
      (case snd x of [] \<Rightarrow> False | c # cs \<Rightarrow> is_word c))"

fun ends :: "regex \<Rightarrow> pos \<Rightarrow> pos list" where
  "ends Eps x = [x]"
| "ends (Chr P) x =
     (case snd x of [] \<Rightarrow> [] | c # cs \<Rightarrow> if P c then [(Some c, cs)] else [])"
| "ends (Cat r1 r2) x = concat (map (ends r2) (ends r1 x))"
| "ends (Alt r1 r2) x = ends r1 x @ ends r2 x"
| "ends (Opt r) x = ends r x @ [x]"
| "ends (Many1 P) x = rev (tl (run_ends P (fst x) (snd x)))"
| "ends (Many0 P) x = rev (run_ends P (fst x) (snd x))"
| "ends (Lazy0 P) x = run_ends P (fst x) (snd x)"
| "ends WordB x = (if at_boundary x then [x] else [])"

text \<open>The length of the match of \<open>r\<close> at a position, if there is one.\<close>

definition match_at :: "regex \<Rightarrow> pos \<Rightarrow> nat option" where
  "match_at r x =
     (case ends r x of [] \<Rightarrow> None | y # ys \<Rightarrow> Some (length (snd x) - length (snd y)))"

text \<open>
  \<open>re.sub(r, repl, s)\<close> with a constant replacement and \<open>re.split(r, s)\<close> for a pattern
  without groups scan the subject from the left; after a match the scan resumes behind
  it (\<open>skip\<close> counts the characters of the current match still to pass).  None of the
  patterns of the sources matches the empty string; a position with an empty match is
  treated as one without a match.
\<close>

fun sub_go :: "regex \<Rightarrow> string \<Rightarrow> char option \<Rightarrow> nat \<Rightarrow> string \<Rightarrow> string" where
  "sub_go r repl prev skip [] = []"
| "sub_go r repl prev skip (c # cs) =
     (if skip > 0 then sub_go r repl (Some c) (skip - 1) cs
      else (case match_at r (prev, c # cs) of
              Some (Suc n) \<Rightarrow> repl @ sub_go r repl (Some c) n cs
            | _ \<Rightarrow> c # sub_go r repl (Some c) 0 cs))"

definition re_sub :: "regex \<Rightarrow> string \<Rightarrow> string \<Rightarrow> string" where
  "re_sub r repl s = sub_go r repl None 0 s"

fun split_go :: "regex \<Rightarrow> char option \<Rightarrow> nat \<Rightarrow> string \<Rightarrow> string \<Rightarrow> string list" where
  "split_go r prev skip cur [] = [rev cur]"
| "split_go r prev skip cur (c # cs) =
     (if skip > 0 then split_go r (Some c) (skip - 1) cur cs
      else (case match_at r (prev, c # cs) of
              Some (Suc n) \<Rightarrow> rev cur # split_go r (Some c) n [] cs
            | _ \<Rightarrow> split_go r (Some c) 0 (c # cur) cs))"

definition re_split :: "regex \<Rightarrow> string \<Rightarrow> string list" where
  "re_split r s = split_go r None 0 [] s"

text \<open>
  \<open>re.search\<close> for a pattern \<open>pre(grp)\<close> that ends with its only group: the text of the
  group in the leftmost match, if there is a match.  \<open>re_search r s\<close> is the whole match
  (\<open>group(0)\<close>).
\<close>

fun first_group :: "regex \<Rightarrow> pos list \<Rightarrow> string option" where
  "first_group grp [] = None"
| "first_group grp (y # ys) =
     (case ends grp y of
        [] \<Rightarrow> first_group grp ys
      | z # zs \<Rightarrow> Some (take (length (snd y) - length (snd z)) (snd y)))"

fun search_group :: "regex \<Rightarrow> regex \<Rightarrow> char option \<Rightarrow> string \<Rightarrow> string option" where
  "search_group pre grp prev [] = first_group grp (ends pre (prev, []))"
| "search_group pre grp prev (c # cs) =
     (case first_group grp (ends pre (prev, c # cs)) of
        Some g \<Rightarrow> Some g
      | None \<Rightarrow> search_group pre grp (Some c) cs)"

definition re_search_group :: "regex \<Rightarrow> regex \<Rightarrow> string \<Rightarrow> string option" where
  "re_search_group pre grp s = search_group pre grp None s"

definition re_search :: "regex \<Rightarrow> string \<Rightarrow> string option" where
  "re_search r s = re_search_group Eps r s"

text \<open>\<open>re.fullmatch(r, s)\<close> as a truth value: some match at the start ends at the end.\<close>

definition re_fullmatch :: "regex \<Rightarrow> string \<Rightarrow> bool" where
  "re_fullmatch r s = list_ex (\<lambda>y. snd y = []) (ends r (None, s))"

text \<open>
  A literal character (\<open>lit\<close>), a literal character and a literal word under
  \<open>re.IGNORECASE\<close> (\<open>ci\<close>, \<open>word_ci\<close>), and the concatenation of a list of patterns.
\<close>

definition lit :: "char \<Rightarrow> regex" where
  "lit a = Chr (\<lambda>c. c = a)"

definition ci :: "char \<Rightarrow> regex" where
  "ci a = Chr (\<lambda>c. lower_chr c = lower_chr a)"

fun word_ci :: "string \<Rightarrow> regex" where
  "word_ci [] = Eps"
| "word_ci [a] = ci a"
| "word_ci (a # b # bs) = Cat (ci a) (word_ci (b # bs))"

fun cats :: "regex list \<Rightarrow> regex" where
  "cats [] = Eps"
| "cats [r] = r"
| "cats (r # q # qs) = Cat r (cats (q # qs))"

section \<open>Text normalization\<close>

text \<open>The whitespace pattern \<open>\s+\<close> and the punctuation class \<open>[^\w\s]\<close>.\<close>

definition ws_plus :: regex where
  "ws_plus = Many1 is_space"

definition is_punct :: "char \<Rightarrow> bool" where
  "is_punct c = (\<not> is_word c \<and> \<not> is_space c)"

text \<open>\<open>normalize\<close> of \<open>nclat.py\<close> (the name \<open>normalize\<close> is taken in HOL).\<close>

definition normalize_nclat :: "string \<Rightarrow> string" where
  "normalize_nclat text =
     (let text = lower text;
          text = re_sub (Chr is_punct) '' '' text;
          text = re_sub ws_plus '' '' text
      in strip text)"

text \<open>
  \<open>normalize_name\<close> of the Supreme Court scraper.  The argument is \<open>None\<close> for a value
  that is not a \<open>str\<close>.  The noise pattern is \<open>\b(ors?|anr|lrs?|&)\b\<close>.
\<close>

definition noise_tokens :: regex where
  "noise_tokens =
     Cat WordB
      (Cat (Alt (Cat (lit CHR ''o'') (Cat (lit CHR ''r'') (Opt (lit CHR ''s''))))
           (Alt (Cat (lit CHR ''a'') (Cat (lit CHR ''n'') (lit CHR ''r'')))
           (Alt (Cat (lit CHR ''l'') (Cat (lit CHR ''r'') (Opt (lit CHR ''s''))))
                (lit CHR ''&''))))
        WordB)"

definition normalize_name :: "string option \<Rightarrow> string" where
  "normalize_name arg =
     (case arg of
        None \<Rightarrow> []
      | Some text \<Rightarrow>
          (let text = lower text;
               text = re_sub noise_tokens [] text;
               text = re_sub (Chr is_punct) '' '' text;
               text = strip (re_sub ws_plus '' '' text)
           in text))"

text \<open>\<open>normalize_text\<close> and \<open>get_first_two_words\<close> of the Delhi High Court scraper.\<close>

definition delhi_normalize_text :: "string \<Rightarrow> string" where
  "delhi_normalize_text s =
     (if s = [] then []
      else let s = replace_chr (CHR 0x0A) CHR '' '' (lower s);
               s = re_sub ws_plus '' '' s
           in strip s)"

definition get_first_two_words :: "string \<Rightarrow> string" where
  "get_first_two_words name = join '' '' (take 2 (split_ws (delhi_normalize_text name)))"

text \<open>\<open>normalize_text\<close> of the Bombay High Court scraper (\<open>\xa0\<close> is the no-break space).\<close>

definition bombay_normalize_text :: "string \<Rightarrow> string" where
  "bombay_normalize_text s = strip (re_sub ws_plus '' '' (replace_chr (CHR 0xA0) CHR '' '' s))"

text \<open>
  A string is \<open>squeezed\<close> when every whitespace character in it is a single blank
  followed by a non-whitespace character or the end: the shape \<open>re.sub(r"\s+", " ", s)\<close>
  produces.  The predicate is used in the proofs only.
\<close>

fun squeezed :: "string \<Rightarrow> bool" where
  "squeezed [] = True"
| "squeezed [c] = (if is_space c then c = CHR '' '' else True)"
| "squeezed (c # d # ds) =
     ((if is_space c then c = CHR '' '' \<and> \<not> is_space d else True) \<and> squeezed (d # ds))"

section \<open>Splitting a party string\<close>

text \<open>
  The separator of the Bombay, Delhi and NCLAT scrapers is \<open>\s+v(?:s\.?)?\s+\<close>, matched
  with \<open>re.IGNORECASE\<close>.
\<close>

definition vs_sep :: regex where
  "vs_sep =
     Cat (Many1 is_space)
      (Cat (ci CHR ''v'')
      (Cat (Opt (Cat (ci CHR ''s'') (Opt (lit CHR ''.''))))
           (Many1 is_space)))"

text \<open>\<open>split_parties\<close> of \<open>bombay_high_court.py\<close>; the Delhi scraper has the same function.\<close>

definition split_parties :: "string \<Rightarrow> string \<times> string" where
  "split_parties parties =
     (if parties = [] then (''N/A'', ''N/A'')
      else (case re_split vs_sep parties of
              [p0, p1] \<Rightarrow> (strip p0, strip p1)
            | _ \<Rightarrow> (strip parties, ''N/A'')))"

text \<open>\<open>split_parties\<close> of \<open>nclat.py\<close>: no guard for the empty string and no stripping.\<close>

definition nclat_split_parties :: "string \<Rightarrow> string \<times> string" where
  "nclat_split_parties parties =
     (case re_split vs_sep parties of
        [p0, p1] \<Rightarrow> (p0, p1)
      | _ \<Rightarrow> (parties, ''N/A''))"

text \<open>
  \<open>split_petitioner_respondent\<close> of the Supreme Court scraper.  Bracketed text matching
  \<open>\{.*?\}|\[.*?\]\<close> is deleted first (\<open>.\<close> is any character but the newline); the
  separator is \<open>\bversus\b|\bvs\.?\b|\bv\.?\b\<close> with \<open>re.IGNORECASE\<close>.
\<close>

definition not_newline :: "char \<Rightarrow> bool" where
  "not_newline c = (c \<noteq> CHR 0x0A)"

definition bracketed :: regex where
  "bracketed =
     Alt (Cat (lit CHR ''{'') (Cat (Lazy0 not_newline) (lit CHR ''}'')))
         (Cat (lit CHR ''['') (Cat (Lazy0 not_newline) (lit CHR '']'')))"

definition versus_sep :: regex where
  "versus_sep =
     Alt (Cat WordB (Cat (word_ci ''versus'') WordB))
    (Alt (Cat WordB (Cat (word_ci ''vs'') (Cat (Opt (lit CHR ''.'')) WordB)))
         (Cat WordB (Cat (ci CHR ''v'') (Cat (Opt (lit CHR ''.'')) WordB))))"

definition split_petitioner_respondent :: "string \<Rightarrow> string \<times> string" where
  "split_petitioner_respondent party_text =
     (if party_text = [] then (''N/A'', ''N/A'')
      else let text = re_sub bracketed [] party_text
           in (case re_split versus_sep text of
                 p0 # p1 # ps \<Rightarrow> (strip p0, strip p1)
               | _ \<Rightarrow> (strip text, ''N/A'')))"

section \<open>Python values and dictionaries\<close>

text \<open>
  The values the result dictionaries and the decoded JSON hold.  A \<open>dict\<close> is the list
  of its items in insertion order with distinct keys.  JSON numbers are represented by
  \<open>PInt\<close>; a float behaves like an integer in every operation modelled here.
\<close>

datatype pyval =
    PNone
  | PBool bool
  | PInt int
  | PStr string
  | PList "pyval list"
  | PDict "(string \<times> pyval) list"

type_synonym dict = "(string \<times> pyval) list"

text \<open>\<open>d.get(k)\<close>, \<open>d.get(k, default)\<close> and \<open>d[k] = v\<close>.\<close>

definition dict_get :: "dict \<Rightarrow> string \<Rightarrow> pyval" where
  "dict_get d k = (case map_of d k of None \<Rightarrow> PNone | Some v \<Rightarrow> v)"

definition dict_get_default :: "dict \<Rightarrow> string \<Rightarrow> pyval \<Rightarrow> pyval" where
  "dict_get_default d k dflt = (case map_of d k of None \<Rightarrow> dflt | Some v \<Rightarrow> v)"

fun dict_set :: "dict \<Rightarrow> string \<Rightarrow> pyval \<Rightarrow> dict" where
  "dict_set [] k v = [(k, v)]"
| "dict_set ((k', v') # d) k v =
     (if k' = k then (k, v) # d else (k', v') # dict_set d k v)"

text \<open>No value of the dictionary is \<open>None\<close>.\<close>

definition no_none :: "dict \<Rightarrow> bool" where
  "no_none d = list_all (\<lambda>kv. snd kv \<noteq> PNone) d"

section \<open>Browser sessions and the file cache\<close>

text \<open>
  A browser-automation call either succeeds or raises.  A session is modelled by the
  outcome of each call, named by a string; what a scraper did is the list of the calls
  it made, in order.  \<open>run_actions\<close> makes the calls of a list one after the other and
  stops at the first that raises.
\<close>

type_synonym action = string

fun run_actions :: "(action \<Rightarrow> exn option) \<Rightarrow> action list \<Rightarrow> action list \<times> exn option" where
  "run_actions outcome [] = ([], None)"
| "run_actions outcome (a # as) =
     (case outcome a of
        Some e \<Rightarrow> ([a], Some e)
      | None \<Rightarrow> (case run_actions outcome as of (done, r) \<Rightarrow> (a # done, r)))"

text \<open>
  The world of the downloading scrapers: the files on disk (path to content) and the
  HTTP requests issued so far.  The network is a parameter \<open>http\<close>: given the requests
  made before and a URL, it returns the response body or raises (a connection error,
  or \<open>raise_for_status\<close> on an error status).
\<close>

record world =
  files :: "string \<rightharpoonup> string"
  requests :: "string list"

type_synonym http = "string list \<Rightarrow> string \<Rightarrow> exn + string"

section \<open>Bombay High Court scraper\<close>

text \<open>
  The dictionary built for a main case at lines 52 to 64 has a fixed set of keys; it is
  a record here.  \<open>mc_with_cases\<close> holds the \<open>case_number\<close> and \<open>details\<close> of each linked
  case.
\<close>

record main_case =
  mc_case_number :: string
  mc_petitioner :: string
  mc_respondent :: string
  mc_advocates :: string
  mc_court :: string
  mc_judge :: string
  mc_court_no :: string
  mc_date :: string
  mc_court_time :: string
  mc_with_cases :: "(string \<times> string) list"
  mc_remarks :: string

text \<open>
  \<open>extract_cases_from_table\<close>.  A row is the list of the texts of its cells.  The loop
  state is \<open>results\<close>, \<open>current_main_case\<close> and \<open>last_case_no\<close>; \<open>current_main_case\<close> is the
  dictionary last appended to \<open>results\<close>, shared with the list, so it is the index of
  that entry.
\<close>

type_synonym table_state = "main_case list \<times> nat option \<times> string option"

definition is_new_case :: "string \<Rightarrow> string \<Rightarrow> string option \<Rightarrow> bool" where
  "is_new_case cl_no_raw case_no last_case_no =
     (let is_cl_no = re_fullmatch (Many1 is_digit) cl_no_raw
      in is_cl_no \<or> (case_no \<noteq> [] \<and> Some case_no \<noteq> last_case_no))"

fun table_row :: "string \<Rightarrow> string \<Rightarrow> string \<Rightarrow> string \<Rightarrow> table_state \<Rightarrow> string list \<Rightarrow> table_state" where
  "table_row bench court_time court_no date_val (results, current_main_case, last_case_no)
       [cell0, cell1, cell2, cell3] =
     (let cl_no_raw = bombay_normalize_text cell0;
          case_no = bombay_normalize_text cell1;
          parties = bombay_normalize_text cell2;
          advocates = bombay_normalize_text cell3;
          (petitioner, respondent) = split_parties parties
      in if is_new_case cl_no_raw case_no last_case_no then
           (results @
              [\<lparr> mc_case_number = case_no, mc_petitioner = petitioner,
                 mc_respondent = respondent,
                 mc_advocates = (if advocates = [] then ''N/A'' else advocates),
                 mc_court = ''Bombay High Court'', mc_judge = bench, mc_court_no = court_no,
                 mc_date = date_val, mc_court_time = court_time, mc_with_cases = [],
                 mc_remarks = [] \<rparr>],
            Some (length results), Some case_no)
         else (case current_main_case of
                 Some i \<Rightarrow>
                   if lower cl_no_raw = ''with'' then
                     (results [i := (results ! i)
                        \<lparr> mc_with_cases := mc_with_cases (results ! i) @ [(case_no, parties)] \<rparr>],
                      current_main_case, last_case_no)
                   else (results, current_main_case, last_case_no)
               | None \<Rightarrow> (results, current_main_case, last_case_no)))"
| "table_row bench court_time court_no date_val (results, current_main_case, last_case_no)
       [cell0] =
     (case current_main_case of
        Some i \<Rightarrow>
          (let text = bombay_normalize_text cell0
           in if text \<noteq> [] then
                (results [i := (results ! i)
                   \<lparr> mc_remarks := (if mc_remarks (results ! i) = [] then text
                                     else mc_remarks (results ! i) @ [CHR 0x0A] @ text) \<rparr>],
                 current_main_case, last_case_no)
              else (results, current_main_case, last_case_no))
      | None \<Rightarrow> (results, current_main_case, last_case_no))"
| "table_row bench court_time court_no date_val st cells = st"

definition extract_cases_from_table ::
  "string list list \<Rightarrow> string \<Rightarrow> string \<Rightarrow> string \<Rightarrow> string \<Rightarrow> main_case list" where
  "extract_cases_from_table rows bench court_time court_no date_val =
     fst (foldl (table_row bench court_time court_no date_val) ([], None, None) rows)"

text \<open>
  The patterns of \<open>search\<close>, all matched with \<open>re.IGNORECASE\<close>:
  \<open>HON'?BLE\s+SHRI|HON'?BLE\s+MS|HON'?BLE\s+JUSTICE\<close>,
  \<open>AT\s+\d{1,2}\.\d{2}\s*[AP]\.M\.\<close>, \<open>COURT\s+NO\s*[:\-]?\s*(\d+)\<close> and
  \<open>DATE\s*[:\-]?\s*(\d{2}-\d{2}-\d{4})\<close>.  The last two are given as the part before the
  group and the group.
\<close>

definition honble :: regex where
  "honble = cats [word_ci ''HON'', Opt (lit CHR 0x27), word_ci ''BLE'', Many1 is_space]"

definition judge_heading :: regex where
  "judge_heading =
     Alt (Cat honble (word_ci ''SHRI''))
    (Alt (Cat honble (word_ci ''MS''))
         (Cat honble (word_ci ''JUSTICE'')))"

definition colon_or_dash :: "char \<Rightarrow> bool" where
  "colon_or_dash c = (c = CHR '':'' \<or> c = CHR ''-'')"

definition time_pattern :: regex where
  "time_pattern =
     cats [word_ci ''AT'', Many1 is_space, Chr is_digit, Opt (Chr is_digit), lit CHR ''.'',
           Chr is_digit, Chr is_digit, Many0 is_space,
           Chr (\<lambda>c. lower_chr c = CHR ''a'' \<or> lower_chr c = CHR ''p''),
           lit CHR ''.'', ci CHR ''M'', lit CHR ''.'']"

definition court_no_prefix :: regex where
  "court_no_prefix =
     cats [word_ci ''COURT'', Many1 is_space, word_ci ''NO'', Many0 is_space,
           Opt (Chr colon_or_dash), Many0 is_space]"

definition date_prefix :: regex where
  "date_prefix = cats [word_ci ''DATE'', Many0 is_space, Opt (Chr colon_or_dash), Many0 is_space]"

definition date_group :: regex where
  "date_group =
     cats [Chr is_digit, Chr is_digit, lit CHR ''-'', Chr is_digit, Chr is_digit, lit CHR ''-'',
           Chr is_digit, Chr is_digit, Chr is_digit, Chr is_digit]"

text \<open>
  The nodes \<open>h3, table\<close> of the result container in document order, and the walk over
  them.  The walk state is \<open>current_bench\<close>, \<open>current_time\<close>, \<open>current_court_no\<close> and
  \<open>all_results\<close>.
\<close>

datatype node = H3 string | Table "string list list"

type_synonym walk_state = "string \<times> string \<times> string \<times> main_case list"

fun walk_node :: "string \<Rightarrow> string \<Rightarrow> walk_state \<Rightarrow> node \<Rightarrow> walk_state" where
  "walk_node container_text date_str (current_bench, current_time, current_court_no, all_results)
       (H3 inner_text) =
     (let text = bombay_normalize_text inner_text
      in if re_search judge_heading text \<noteq> None
         then (text, current_time, current_court_no, all_results)
         else (current_bench, current_time, current_court_no, all_results))"
| "walk_node container_text date_str (current_bench, current_time, current_court_no, all_results)
       (Table rows) =
     (let preceding_text = bombay_normalize_text container_text;
          court_time = (case re_search time_pattern preceding_text of
                          Some m \<Rightarrow> m | None \<Rightarrow> current_time);
          court_no = (case re_search_group court_no_prefix (Many1 is_digit) preceding_text of
                        Some g \<Rightarrow> g | None \<Rightarrow> current_court_no);
          date_val = (case re_search_group date_prefix date_group preceding_text of
                        Some g \<Rightarrow> g | None \<Rightarrow> date_str);
          table_results = extract_cases_from_table rows current_bench court_time court_no date_val
      in (current_bench, court_time, court_no, all_results @ table_results))"

text \<open>The final dictionaries of \<open>search\<close> (lines 181 to 194).\<close>

definition final_record :: "main_case \<Rightarrow> dict" where
  "final_record c =
     [(''case_number'', PStr (mc_case_number c)),
      (''petitioner'', PStr (mc_petitioner c)),
      (''respondent'', PStr (mc_respondent c)),
      (''advocates'', PStr (mc_advocates c)),
      (''court'', PStr (mc_court c)),
      (''judge'', PStr (mc_judge c)),
      (''court_no'', PStr (mc_court_no c)),
      (''date'', PStr (mc_date c)),
      (''court_time'', PStr (mc_court_time c)),
      (''remarks'', PStr (mc_remarks c)),
      (''with_cases'',
         PList (map (\<lambda>wc. PDict [(''case_number'', PStr (fst wc)), (''details'', PStr (snd wc))])
                  (mc_with_cases c)))]"

text \<open>
  \<open>search\<close>.  The session gives the outcome of each browser call, the text of the
  result container and its nodes.  The result comes with the browser calls made.
  Launching the browser and opening the page happen before the \<open>try\<close>; after them, the
  \<open>finally\<close> closes the browser on every path.  A timeout of the wait for
  \<open>#tb_causelist\<close> is caught, the page is dumped to a file, and an \<open>Exception\<close> is raised
  in its place.  Closing the browser and writing the dump are taken to succeed.
\<close>

record session =
  outcome :: "action \<Rightarrow> exn option"
  container_text :: string
  nodes :: "node list"

definition bombay_search ::
  "session \<Rightarrow> string option \<Rightarrow> string option \<Rightarrow> (exn + dict list) \<times> action list" where
  "bombay_search s party_name date_arg =
     (if \<not> truthy party_name \<or> \<not> truthy date_arg then (Inr [], [])
      else
        let p = the party_name; d = the date_arg
        in (case run_actions (outcome s) [''chromium.launch'', ''browser.new_page''] of
              (t0, Some e) \<Rightarrow> (Inl e, t0)
            | (t0, None) \<Rightarrow>
               (case run_actions (outcome s)
                       [''page.goto'', ''page.wait_for_load_state'', ''click Party'',
                        ''fill Party Name'', ''set date'', ''click Search''] of
                  (t1, Some e) \<Rightarrow> (Inl e, t0 @ t1 @ [''browser.close''])
                | (t1, None) \<Rightarrow>
                   (case outcome s ''wait_for_selector #tb_causelist'' of
                      Some PlaywrightTimeout \<Rightarrow>
                        (Inl (Exception ''Bombay HC: #tb_causelist not found.''),
                         t0 @ t1 @ [''wait_for_selector #tb_causelist'', ''page.content'',
                                    ''write bombay_debug.html'', ''browser.close''])
                    | Some e \<Rightarrow>
                        (Inl e, t0 @ t1 @ [''wait_for_selector #tb_causelist'', ''browser.close''])
                    | None \<Rightarrow>
                        (let (current_bench, current_time, current_court_no, all_results) =
                               foldl (walk_node (container_text s) d)
                                 (''N/A'', ''N/A'', ''N/A'', []) (nodes s)
                         in (Inr (map final_record all_results),
                             t0 @ t1 @ [''wait_for_selector #tb_causelist'', ''read nodes'',
                                        ''browser.close'']))))))"

section \<open>Range scan: \<open>search_range\<close> of the Bombay, Delhi and Supreme Court scrapers\<close>

text \<open>
  A \<open>datetime\<close> at midnight is modelled by its proleptic Gregorian ordinal
  (\<open>date.toordinal()\<close>): day 1 is 0001-01-01 and \<open>date_max\<close> is 9999-12-31, the last
  value the type holds.  Adding \<open>timedelta(days=1)\<close> to it raises \<open>OverflowError\<close>.
  \<open>strptime\<close> (with the court's format fixed) and \<open>strftime\<close> are library functions and
  are parameters of the model; \<open>strptime\<close> returns \<open>None\<close> where Python raises
  \<open>ValueError\<close>.  The per-day \<open>search\<close> is a parameter as well: it returns the day's
  records or raises.  The three scrapers differ in the date format and in the text of
  the message for a malformed date only; that text is the parameter \<open>invalid_format\<close>.
\<close>

type_synonym datetime = nat

definition date_max :: datetime where
  "date_max = 3652059"

definition add_one_day :: "datetime \<Rightarrow> exn + datetime" where
  "add_one_day d = (if d < date_max then Inr (d + 1) else Inl OverflowError)"

function range_loop ::
  "(string \<Rightarrow> string \<Rightarrow> exn + 'r list) \<Rightarrow> (datetime \<Rightarrow> string) \<Rightarrow> string \<Rightarrow>
     datetime \<Rightarrow> datetime \<Rightarrow> 'r list \<Rightarrow> exn + 'r list" where
  "range_loop search strftime party_name end_dt current all_results =
     (if current \<le> end_dt then
        let cause_date = strftime current;
            all_results' = (case search party_name cause_date of
                              Inr daily_results \<Rightarrow> all_results @ daily_results
                            | Inl e \<Rightarrow> all_results)
        in (case add_one_day current of
              Inl e \<Rightarrow> Inl e
            | Inr current' \<Rightarrow>
                range_loop search strftime party_name end_dt current' all_results')
      else Inr all_results)"
  by pat_completeness auto
termination
  by (relation "measure (\<lambda>(search, strftime, party_name, end_dt, current, all_results).
                           Suc end_dt - current)")
     (auto simp: add_one_day_def split: if_splits)

declare range_loop.simps [simp del]

definition search_range ::
  "string \<Rightarrow> (string \<Rightarrow> datetime option) \<Rightarrow> (datetime \<Rightarrow> string) \<Rightarrow>
     (string \<Rightarrow> string \<Rightarrow> exn + 'r list) \<Rightarrow> string \<Rightarrow> string \<Rightarrow> string \<Rightarrow> exn + 'r list" where
  "search_range invalid_format strptime strftime search party_name start_date end_date =
     (case strptime start_date of
        None \<Rightarrow> Inl (Exception invalid_format)
      | Some start_dt \<Rightarrow>
         (case strptime end_date of
            None \<Rightarrow> Inl (Exception invalid_format)
          | Some end_dt \<Rightarrow>
              if start_dt > end_dt then Inl (Exception ''Start date cannot be after end date'')
              else range_loop search strftime party_name end_dt start_dt []))"

definition bombay_invalid_format :: string where
  "bombay_invalid_format = ''Invalid date format. Use DD-MM-YYYY for Bombay''"

definition delhi_invalid_format :: string where
  "delhi_invalid_format = ''Invalid date format. Use DD.MM.YYYY for Delhi''"

definition supreme_invalid_format :: string where
  "supreme_invalid_format = ''Invalid date format. Use YYYY-MM-DD''"

text \<open>What one day contributes to the result: its records, or nothing when it raised.\<close>

definition day_records :: "(string \<Rightarrow> string \<Rightarrow> exn + 'r list) \<Rightarrow> (datetime \<Rightarrow> string) \<Rightarrow>
    string \<Rightarrow> datetime \<Rightarrow> 'r list" where
  "day_records search strftime party_name d =
     (case search party_name (strftime d) of Inr rs \<Rightarrow> rs | Inl e \<Rightarrow> [])"

text \<open>
  A four-day calendar for concrete runs: the values of \<open>strptime\<close> and \<open>strftime\<close> with
  the Bombay format \<open>%d-%m-%Y\<close> at the last four days of the \<open>datetime\<close> type, and a
  per-day search that raises on 29-12-9999 and returns one record on every other day.
\<close>

definition last_days_strptime :: "string \<Rightarrow> datetime option" where
  "last_days_strptime s =
     (if s = ''28-12-9999'' then Some 3652056
      else if s = ''29-12-9999'' then Some 3652057
      else if s = ''30-12-9999'' then Some 3652058
      else if s = ''31-12-9999'' then Some 3652059
      else None)"

definition last_days_strftime :: "datetime \<Rightarrow> string" where
  "last_days_strftime d =
     (if d = 3652056 then ''28-12-9999''
      else if d = 3652057 then ''29-12-9999''
      else if d = 3652058 then ''30-12-9999''
      else if d = 3652059 then ''31-12-9999''
      else [])"

definition failing_29_search :: "string \<Rightarrow> string \<Rightarrow> exn + string list" where
  "failing_29_search party_name cause_date =
     (if cause_date = ''29-12-9999''
      then Inl (Exception ''Bombay HC: #tb_causelist not found.'')
      else Inr [cause_date])"

section \<open>Supreme Court scraper: page matching\<close>

text \<open>
  Phase 1 of \<open>search\<close>.  A page matches when the normalized party name is a substring of
  the normalized page text, or else when the name has at least one token and every
  token occurs in the page text.  \<open>page.extract_text() or ""\<close> turns a page without
  text into the empty string.
\<close>

definition page_matches :: "string \<Rightarrow> string \<Rightarrow> bool" where
  "page_matches name_norm page_norm =
     (if str_in name_norm page_norm then True
      else let tokens = split_ws name_norm
           in tokens \<noteq> [] \<and> list_all (\<lambda>t. str_in t page_norm) tokens)"

definition text_or_empty :: "string option \<Rightarrow> string" where
  "text_or_empty t = (case t of None \<Rightarrow> [] | Some s \<Rightarrow> s)"

definition matched_pages :: "string option \<Rightarrow> string option list \<Rightarrow> nat list" where
  "matched_pages party_name pages =
     (let name_norm = normalize_name party_name
      in filter (\<lambda>page_index.
                   page_matches name_norm
                     (normalize_name (Some (text_or_empty (pages ! page_index)))))
           [0 ..< length pages])"

text \<open>
  \<open>download_pdf\<close>: the cause list of a day is fetched unless its file is on disk already.
\<close>

definition sc_pdf_path :: "string \<Rightarrow> string" where
  "sc_pdf_path cause_date = ''data/sc_cause_list_'' @ cause_date @ ''.pdf''"

definition sc_url :: "string \<Rightarrow> string" where
  "sc_url cause_date = ''https://api.sci.gov.in/jonew/cl/'' @ cause_date @ ''/M_J_1.pdf''"

definition download_pdf :: "http \<Rightarrow> string \<Rightarrow> world \<Rightarrow> (exn + string) \<times> world" where
  "download_pdf http cause_date w =
     (let pdf_path = sc_pdf_path cause_date;
          url = sc_url cause_date
      in if files w pdf_path \<noteq> None then (Inr pdf_path, w)
         else (case http (requests w) url of
                 Inl e \<Rightarrow> (Inl e, w\<lparr>requests := requests w @ [url]\<rparr>)
               | Inr content \<Rightarrow>
                   (Inr pdf_path,
                    w\<lparr>requests := requests w @ [url],
                      files := (files w)(pdf_path \<mapsto> content)\<rparr>)))"

text \<open>
  \<open>search\<close>: the two date checks, the download, and phase 1.  \<open>strptime\<close> is the parse
  with the format \<open>%Y-%m-%d\<close>; \<open>open_pdf\<close> gives the pages of the stored PDF or raises.
  Phase 2 (lines 195 to 244: extraction and the result dictionaries of the matched
  pages) is the parameter \<open>phase2\<close>; it receives the path, the matched page indices, the
  party name and the date.  The party name is \<open>None\<close> for a value that is not a \<open>str\<close>.
\<close>

definition supreme_search ::
  "(string \<Rightarrow> datetime option) \<Rightarrow> http \<Rightarrow> (string \<Rightarrow> exn + string option list) \<Rightarrow>
     (string \<Rightarrow> nat list \<Rightarrow> string option \<Rightarrow> string \<Rightarrow> exn + dict list) \<Rightarrow>
     string option \<Rightarrow> string option \<Rightarrow> world \<Rightarrow> (exn + dict list) \<times> world" where
  "supreme_search strptime http open_pdf phase2 party_name cause_date w =
     (if \<not> truthy cause_date
      then (Inl (Exception ''Supreme Court requires a date (YYYY-MM-DD)''), w)
      else
        let d = the cause_date
        in (case strptime d of
              None \<Rightarrow> (Inl (Exception ''Invalid date format. Use YYYY-MM-DD''), w)
            | Some dt \<Rightarrow>
               (case download_pdf http d w of
                  (Inl e, w1) \<Rightarrow> (Inl e, w1)
                | (Inr pdf_path, w1) \<Rightarrow>
                   (case open_pdf pdf_path of
                      Inl e \<Rightarrow> (Inl e, w1)
                    | Inr pages \<Rightarrow>
                        (let matched = matched_pages party_name pages
                         in if matched = [] then (Inr [], w1)
                            else (phase2 pdf_path matched party_name d, w1))))))"

section \<open>NCLAT scraper\<close>

text \<open>
  The body of the row loop of \<open>download_pdfs\<close> from line 164: the file name is the last
  segment of the URL, and the PDF is fetched unless the file is on disk already.  The
  path is returned for \<open>pdf_files\<close>.
\<close>

definition last_segment :: "string \<Rightarrow> string" where
  "last_segment url = rev (takeWhile (\<lambda>c. c \<noteq> CHR ''/'') (rev url))"

definition path_join :: "string \<Rightarrow> string \<Rightarrow> string" where
  "path_join dir fname = (if fname = [] then dir else dir @ ''/'' @ fname)"

definition nclat_fetch_row :: "http \<Rightarrow> string \<Rightarrow> world \<Rightarrow> (exn + string) \<times> world" where
  "nclat_fetch_row http pdf_url w =
     (let fname = last_segment pdf_url;
          path = path_join ''nclat_pdfs'' fname
      in if files w path = None then
           (case http (requests w) pdf_url of
              Inl e \<Rightarrow> (Inl e, w\<lparr>requests := requests w @ [pdf_url]\<rparr>)
            | Inr content \<Rightarrow>
                (Inr path,
                 w\<lparr>requests := requests w @ [pdf_url], files := (files w)(path \<mapsto> content)\<rparr>))
         else (Inr path, w))"

text \<open>The response model \<open>CauseMatch\<close>: six string fields.\<close>

record cause_match =
  cm_case_number :: string
  cm_parties :: string
  cm_appellant_counsel :: string
  cm_respondent_counsel :: string
  cm_court_no :: string
  cm_judges :: string

text \<open>
  \<open>ai_extract\<close>.  The extraction capability is a parameter: given the page text, the
  party name, the court number and the judges it returns validated rows or raises
  (a network error, or a response that does not validate as a list of
  \<open>CauseMatch\<close>).  Every exception is caught and the empty list is returned.
\<close>

type_synonym nclat_llm = "string \<Rightarrow> string \<Rightarrow> string \<Rightarrow> string \<Rightarrow> exn + cause_match list"

definition ai_extract :: "nclat_llm \<Rightarrow> string \<Rightarrow> string \<Rightarrow> string \<Rightarrow> string \<Rightarrow> cause_match list" where
  "ai_extract llm page_text party_name court_no judges =
     (case llm page_text party_name court_no judges of
        Inr rows \<Rightarrow> rows
      | Inl e \<Rightarrow> [])"

text \<open>
  \<open>extract_court_no_page1\<close>: the pattern is \<open>COURT\s*[-D]?\s*([IVX\d]+)\<close> with \<open>re.I\<close>,
  where \<open>D\<close> stands for the en dash U+2013 (of the two dashes of the class only the hyphen
  lies in the range of characters modelled).  A PDF
  without pages makes \<open>pdf.pages[0]\<close> raise \<open>IndexError\<close>.
\<close>

definition nclat_court_prefix :: regex where
  "nclat_court_prefix =
     cats [word_ci ''COURT'', Many0 is_space, Opt (lit CHR ''-''), Many0 is_space]"

definition roman_or_digit :: "char \<Rightarrow> bool" where
  "roman_or_digit c =
     (is_digit c \<or> lower_chr c = CHR ''i'' \<or> lower_chr c = CHR ''v'' \<or> lower_chr c = CHR ''x'')"

definition extract_court_no_page1 :: "string option list \<Rightarrow> exn + string" where
  "extract_court_no_page1 pages =
     (case pages of
        [] \<Rightarrow> Inl IndexError
      | page # rest \<Rightarrow>
          (case re_search_group nclat_court_prefix (Many1 roman_or_digit) (text_or_empty page) of
             Some g \<Rightarrow> Inr g
           | None \<Rightarrow> Inr []))"

text \<open>\<open>extract_judge_blocks\<close>: the loop state is \<open>current\<close> and \<open>blocks\<close>.\<close>

fun split_lines_acc :: "string \<Rightarrow> string \<Rightarrow> string list" where
  "split_lines_acc cur [] = [rev cur]"
| "split_lines_acc cur (c # cs) =
     (if c = CHR 0x0A then rev cur # split_lines_acc [] cs else split_lines_acc (c # cur) cs)"

definition split_newline :: "string \<Rightarrow> string list" where
  "split_newline s = split_lines_acc [] s"

fun judge_line :: "string list \<times> string list \<Rightarrow> string \<Rightarrow> string list \<times> string list" where
  "judge_line (current, blocks) line =
     (if str_in ''Hon'' line then
        (if current \<noteq> [] then ([line], blocks @ [join '' '' current])
         else (current @ [line], blocks))
      else if current \<noteq> [] then
        (if list_ex (\<lambda>k. str_in k line) [''Member'', ''Judicial'', ''Technical'']
         then (current @ [line], blocks)
         else ([], blocks @ [join '' '' current]))
      else (current, blocks))"

definition extract_judge_blocks :: "string \<Rightarrow> string list" where
  "extract_judge_blocks page_text =
     (let lines = filter (\<lambda>l. l \<noteq> []) (map strip (split_newline page_text));
          (current, blocks) = foldl judge_line ([], []) lines
      in if current \<noteq> [] then blocks @ [join '' '' current] else blocks)"

text \<open>
  \<open>search_party_in_pdf\<close>.  The PDF is the list of the texts of its pages (\<open>None\<close> for a
  page without a text layer).  A page is sent to the extraction when the normalized
  party name is a substring of the normalized page text.
\<close>

definition nclat_page_matches :: "string \<Rightarrow> string \<Rightarrow> bool" where
  "nclat_page_matches party_norm text = str_in party_norm (normalize_nclat text)"

fun scan_page ::
  "nclat_llm \<Rightarrow> string \<Rightarrow> string \<Rightarrow> string \<Rightarrow> string \<times> cause_match list \<Rightarrow> string option \<Rightarrow>
     string \<times> cause_match list" where
  "scan_page llm party_name party_norm court_no (current_judges, results) page =
     (case page of
        None \<Rightarrow> (current_judges, results)
      | Some text \<Rightarrow>
          if text = [] then (current_judges, results)
          else
            let judge_blocks = extract_judge_blocks text;
                current_judges = (if judge_blocks \<noteq> [] then last judge_blocks
                                  else current_judges)
            in if \<not> nclat_page_matches party_norm text then (current_judges, results)
               else (current_judges,
                     results @ ai_extract llm text party_name court_no current_judges))"

definition search_party_in_pdf ::
  "nclat_llm \<Rightarrow> string option list \<Rightarrow> string \<Rightarrow> exn + cause_match list" where
  "search_party_in_pdf llm pages party_name =
     (let party_norm = normalize_nclat party_name
      in case extract_court_no_page1 pages of
           Inl e \<Rightarrow> Inl e
         | Inr court_no \<Rightarrow>
             Inr (snd (foldl (scan_page llm party_name party_norm court_no) ([], []) pages)))"

text \<open>
  \<open>search_range\<close>.  \<open>strptime\<close> raises \<open>ValueError\<close> on a malformed date, and nothing
  catches it.  \<open>download_pdfs\<close>, as a whole, is a parameter that returns the paths of
  the PDFs of the range or raises; \<open>open_pdf\<close> gives the pages of a stored PDF or
  raises.
\<close>

definition nclat_record :: "cause_match \<Rightarrow> dict" where
  "nclat_record r =
     (let (petitioner, respondent) = nclat_split_parties (cm_parties r)
      in [(''case_number'', PStr (cm_case_number r)),
          (''petitioner'', PStr petitioner),
          (''respondent'', PStr respondent),
          (''advocates'',
             PStr (''A: '' @ cm_appellant_counsel r @ '' | R: '' @ cm_respondent_counsel r)),
          (''court'', PStr ''NCLAT''),
          (''judge'', PStr (cm_judges r)),
          (''court_no'', PStr (cm_court_no r)),
          (''date'', PNone)])"

fun nclat_scan_pdfs ::
  "nclat_llm \<Rightarrow> (string \<Rightarrow> exn + string option list) \<Rightarrow> string \<Rightarrow> string list \<Rightarrow> exn + dict list" where
  "nclat_scan_pdfs llm open_pdf party_name [] = Inr []"
| "nclat_scan_pdfs llm open_pdf party_name (pdf # pdfs) =
     (case open_pdf pdf of
        Inl e \<Rightarrow> Inl e
      | Inr pages \<Rightarrow>
          (case search_party_in_pdf llm pages party_name of
             Inl e \<Rightarrow> Inl e
           | Inr rows \<Rightarrow>
               (case nclat_scan_pdfs llm open_pdf party_name pdfs of
                  Inl e \<Rightarrow> Inl e
                | Inr rest \<Rightarrow> Inr (map nclat_record rows @ rest))))"

definition nclat_search_range ::
  "(string \<Rightarrow> datetime option) \<Rightarrow> (datetime \<Rightarrow> datetime \<Rightarrow> exn + string list) \<Rightarrow> nclat_llm \<Rightarrow>
     (string \<Rightarrow> exn + string option list) \<Rightarrow> string \<Rightarrow> string \<Rightarrow> string \<Rightarrow> exn + dict list" where
  "nclat_search_range strptime download_pdfs llm open_pdf party_name start_date end_date =
     (case strptime start_date of
        None \<Rightarrow> Inl ValueError
      | Some start_dt \<Rightarrow>
         (case strptime end_date of
            None \<Rightarrow> Inl ValueError
          | Some end_dt \<Rightarrow>
             (case download_pdfs start_dt end_dt of
                Inl e \<Rightarrow> Inl e
              | Inr pdfs \<Rightarrow>
                  if pdfs = [] then Inr []
                  else nclat_scan_pdfs llm open_pdf party_name pdfs)))"

section \<open>CERC scraper\<close>

text \<open>
  \<open>ai_extract\<close>: the chat completion is a parameter; it receives the first 12000
  characters of the page text and returns the content of the reply (which may be
  \<open>None\<close>) or raises.  Nothing in \<open>ai_extract\<close> or in \<open>search\<close> catches what it raises.
\<close>

type_synonym cerc_llm = "string \<Rightarrow> exn + string option"

definition cerc_ai_extract :: "cerc_llm \<Rightarrow> string \<Rightarrow> exn + string option" where
  "cerc_ai_extract llm page_text = llm (take 12000 page_text)"

text \<open>
  \<open>for c in cases\<close>: a list yields its elements, a dictionary its keys, a string its
  characters; \<open>None\<close>, a number and a truth value are not iterable.
\<close>

definition py_iter :: "pyval \<Rightarrow> exn + pyval list" where
  "py_iter v =
     (case v of
        PList xs \<Rightarrow> Inr xs
      | PDict d \<Rightarrow> Inr (map (\<lambda>kv. PStr (fst kv)) d)
      | PStr s \<Rightarrow> Inr (map (\<lambda>c. PStr [c]) s)
      | _ \<Rightarrow> Inl TypeError)"

text \<open>
  The body of the loop over \<open>cases\<close>: \<open>c.get\<close> exists on a dictionary only and \<open>lower\<close> on a
  string only.  The result is the tagged case when the party occurs in its petitioner,
  \<open>None\<close> when it does not.
\<close>

definition case_of_page :: "string \<Rightarrow> string \<Rightarrow> nat \<Rightarrow> pyval \<Rightarrow> exn + dict option" where
  "case_of_page party pdf_name i c =
     (case c of
        PDict d \<Rightarrow>
          (case dict_get_default d ''petitioner'' (PStr []) of
             PStr petitioner \<Rightarrow>
               if str_in (lower party) (lower petitioner)
               then Inr (Some (dict_set (dict_set d ''source_pdf'' (PStr pdf_name))
                                 ''page'' (PInt (int i))))
               else Inr None
           | _ \<Rightarrow> Inl AttributeError)
      | _ \<Rightarrow> Inl AttributeError)"

fun cases_of_page :: "string \<Rightarrow> string \<Rightarrow> nat \<Rightarrow> pyval list \<Rightarrow> exn + dict list" where
  "cases_of_page party pdf_name i [] = Inr []"
| "cases_of_page party pdf_name i (c # cs) =
     (case case_of_page party pdf_name i c of
        Inl e \<Rightarrow> Inl e
      | Inr kept \<Rightarrow>
          (case cases_of_page party pdf_name i cs of
             Inl e \<Rightarrow> Inl e
           | Inr rest \<Rightarrow> Inr (case kept of None \<Rightarrow> rest | Some d \<Rightarrow> d # rest)))"

text \<open>
  One page of \<open>search\<close> (lines 111 to 127): what the page adds to \<open>results\<close>, or the
  exception that leaves \<open>search\<close>.  \<open>json.loads\<close> is a parameter \<open>loads\<close> that returns
  \<open>None\<close> where Python raises; the bare \<open>except\<close> around it also catches the \<open>TypeError\<close>
  of \<open>json.loads(None)\<close>.
\<close>

definition cerc_page ::
  "cerc_llm \<Rightarrow> (string \<Rightarrow> pyval option) \<Rightarrow> string \<Rightarrow> string \<Rightarrow> nat \<Rightarrow> string option \<Rightarrow> exn + dict list" where
  "cerc_page llm loads party pdf_name i page =
     (let text = text_or_empty page
      in if \<not> str_in (lower party) (lower text) then Inr []
         else (case cerc_ai_extract llm text of
                 Inl e \<Rightarrow> Inl e
               | Inr raw \<Rightarrow>
                   (case (case raw of None \<Rightarrow> None | Some s \<Rightarrow> loads s) of
                      None \<Rightarrow> Inr []
                    | Some cases \<Rightarrow>
                        (case py_iter cases of
                           Inl e \<Rightarrow> Inl e
                         | Inr cs \<Rightarrow> cases_of_page party pdf_name i cs))))"

fun cerc_pages ::
  "cerc_llm \<Rightarrow> (string \<Rightarrow> pyval option) \<Rightarrow> string \<Rightarrow> string \<Rightarrow> nat \<Rightarrow> string option list \<Rightarrow>
     exn + dict list" where
  "cerc_pages llm loads party pdf_name i [] = Inr []"
| "cerc_pages llm loads party pdf_name i (page # pages) =
     (case cerc_page llm loads party pdf_name i page of
        Inl e \<Rightarrow> Inl e
      | Inr found \<Rightarrow>
          (case cerc_pages llm loads party pdf_name (Suc i) pages of
             Inl e \<Rightarrow> Inl e
           | Inr rest \<Rightarrow> Inr (found @ rest)))"

text \<open>
  \<open>search\<close>: \<open>fetch_month_pdfs\<close>, as a whole, is a parameter that returns the paths of the
  PDFs of the month or raises; \<open>open_pdf\<close> gives the pages of a stored PDF or raises.
  Pages are numbered from 1.
\<close>

fun cerc_scan_pdfs ::
  "cerc_llm \<Rightarrow> (string \<Rightarrow> pyval option) \<Rightarrow> (string \<Rightarrow> exn + string option list) \<Rightarrow> string \<Rightarrow>
     string list \<Rightarrow> exn + dict list" where
  "cerc_scan_pdfs llm loads open_pdf party [] = Inr []"
| "cerc_scan_pdfs llm loads open_pdf party (pdf_path # pdfs) =
     (case open_pdf pdf_path of
        Inl e \<Rightarrow> Inl e
      | Inr pages \<Rightarrow>
          (case cerc_pages llm loads party (last_segment pdf_path) 1 pages of
             Inl e \<Rightarrow> Inl e
           | Inr found \<Rightarrow>
               (case cerc_scan_pdfs llm loads open_pdf party pdfs of
                  Inl e \<Rightarrow> Inl e
                | Inr rest \<Rightarrow> Inr (found @ rest))))"

definition cerc_search ::
  "(string \<Rightarrow> exn + string list) \<Rightarrow> cerc_llm \<Rightarrow> (string \<Rightarrow> pyval option) \<Rightarrow>
     (string \<Rightarrow> exn + string option list) \<Rightarrow> string \<Rightarrow> string \<Rightarrow> exn + dict list" where
  "cerc_search fetch_month_pdfs llm loads open_pdf month party =
     (case fetch_month_pdfs month of
        Inl e \<Rightarrow> Inl e
      | Inr pdfs \<Rightarrow> cerc_scan_pdfs llm loads open_pdf party pdfs)"

section \<open>Delhi High Court scraper\<close>

text \<open>
  \<open>find_pdf_links_with_pagination\<close>: four listing pages are requested; the anchors of a
  page are given by a parameter \<open>anchors\<close> as pairs of the \<open>href\<close> and the \<open>alt\<close> text of the
  image inside (\<open>None\<close> without an image or without \<open>alt\<close>).
\<close>

definition is_cause_list_title :: "string \<Rightarrow> string \<Rightarrow> bool" where
  "is_cause_list_title text date_str = (str_in ''cause list'' (lower text) \<and> str_in date_str text)"

definition page_links :: "string \<Rightarrow> (string \<times> string option) list \<Rightarrow> (string \<times> string) list" where
  "page_links date_str as =
     concat (map (\<lambda>a. case snd a of
                         None \<Rightarrow> []
                       | Some alt \<Rightarrow>
                           if alt \<noteq> [] \<and> is_cause_list_title alt date_str then
                             (let href = strip (fst a);
                                  pdf_url = (if startswith href ''http'' then href
                                             else ''https://delhihighcourt.nic.in'' @ href)
                              in [(pdf_url, alt)])
                           else []) as)"

fun listing_pages ::
  "http \<Rightarrow> (string \<Rightarrow> (string \<times> string option) list) \<Rightarrow> string \<Rightarrow> string list \<Rightarrow> world \<Rightarrow>
     (exn + (string \<times> string) list) \<times> world" where
  "listing_pages http anchors date_str [] w = (Inr [], w)"
| "listing_pages http anchors date_str (url # urls) w =
     (case http (requests w) url of
        Inl e \<Rightarrow> (Inl e, w\<lparr>requests := requests w @ [url]\<rparr>)
      | Inr content \<Rightarrow>
          (case listing_pages http anchors date_str urls (w\<lparr>requests := requests w @ [url]\<rparr>) of
             (Inl e, w') \<Rightarrow> (Inl e, w')
           | (Inr pdfs, w') \<Rightarrow> (Inr (page_links date_str (anchors content) @ pdfs), w')))"

definition find_pdf_links_with_pagination ::
  "http \<Rightarrow> (string \<Rightarrow> (string \<times> string option) list) \<Rightarrow> string \<Rightarrow> world \<Rightarrow>
     (exn + (string \<times> string) list) \<times> world" where
  "find_pdf_links_with_pagination http anchors date_str w =
     listing_pages http anchors date_str
       (map (\<lambda>page. ''https://delhihighcourt.nic.in/web/cause-lists/cause-list?page='' @ page)
          [''0'', ''1'', ''2'', ''3''])
       w"

text \<open>
  \<open>search\<close>: the guard, the search key and the listing requests.  What follows line 103
  (download through the file cache, page scan and extraction) is the parameter \<open>scan\<close>;
  it receives the search key, the party name, the date and the links.
\<close>

definition delhi_search ::
  "http \<Rightarrow> (string \<Rightarrow> (string \<times> string option) list) \<Rightarrow>
     (string \<Rightarrow> string \<Rightarrow> string \<Rightarrow> (string \<times> string) list \<Rightarrow> world \<Rightarrow> (exn + dict list) \<times> world) \<Rightarrow>
     string option \<Rightarrow> string option \<Rightarrow> world \<Rightarrow> (exn + dict list) \<times> world" where
  "delhi_search http anchors scan party_name date_arg w =
     (if \<not> truthy party_name \<or> \<not> truthy date_arg then (Inr [], w)
      else
        let p = the party_name; d = the date_arg;
            search_key = get_first_two_words p
        in (case find_pdf_links_with_pagination http anchors d w of
              (Inl e, w') \<Rightarrow> (Inl e, w')
            | (Inr pdf_links, w') \<Rightarrow>
                if pdf_links = [] then (Inr [], w')
                else scan search_key p d pdf_links w'))"

text \<open>
  \<open>monitor\<close>.  The parameter \<open>driver\<close> gives the outcome of each
  driver call.  The driver is created before the \<open>try\<close>.  Inside it every exception is
  caught and the empty list is returned; the wait for the processing indicator has a
  handler of its own that ignores the failure.  The conversion of one table row (lines
  307 to 364) is the parameter \<open>convert\<close>: it returns the row's dictionary, \<open>None\<close> for a
  row that is skipped, or raises.  The \<open>finally\<close> quits the driver on every path.
\<close>

fun convert_rows :: "('row \<Rightarrow> exn + dict option) \<Rightarrow> 'row list \<Rightarrow> exn + dict list" where
  "convert_rows convert [] = Inr []"
| "convert_rows convert (row # rows) =
     (case convert row of
        Inl e \<Rightarrow> Inl e
      | Inr kept \<Rightarrow>
          (case convert_rows convert rows of
             Inl e \<Rightarrow> Inl e
           | Inr rest \<Rightarrow> Inr (case kept of None \<Rightarrow> rest | Some d \<Rightarrow> d # rest)))"

definition monitor_setup :: "action list" where
  "monitor_setup =
     [''driver.get'', ''wait party_name visible'', ''party_input.clear'',
      ''party_input.send_keys'', ''wait case_year visible'', ''select year'',
      ''wait captcha-code visible'', ''wait captchaInput visible'', ''captcha_input.clear'',
      ''captcha_input.send_keys'', ''wait search clickable'', ''submit_btn.click'']"

definition monitor_table :: "action list" where
  "monitor_table = [''wait rows populated'', ''find registrarsTable'', ''find rows'']"

definition monitor ::
  "(action \<Rightarrow> exn option) \<Rightarrow> 'row list \<Rightarrow> ('row \<Rightarrow> exn + dict option) \<Rightarrow> string \<Rightarrow> string \<Rightarrow>
     (exn + dict list) \<times> action list" where
  "monitor driver rows convert keyword year =
     (case driver ''webdriver.Chrome'' of
        Some e \<Rightarrow> (Inl e, [''webdriver.Chrome''])
      | None \<Rightarrow>
          (case run_actions driver monitor_setup of
             (t1, Some e) \<Rightarrow> (Inr [], ''webdriver.Chrome'' # t1 @ [''driver.quit''])
           | (t1, None) \<Rightarrow>
               (let t2 = t1 @ [''wait registrarsTable_processing invisible'']
                in case run_actions driver monitor_table of
                     (t3, Some e) \<Rightarrow> (Inr [], ''webdriver.Chrome'' # t2 @ t3 @ [''driver.quit''])
                   | (t3, None) \<Rightarrow>
                       (case convert_rows convert rows of
                          Inl e \<Rightarrow> (Inr [], ''webdriver.Chrome'' # t2 @ t3 @ [''driver.quit''])
                        | Inr results \<Rightarrow>
                            (Inr results, ''webdriver.Chrome'' # t2 @ t3 @ [''driver.quit''])))))"

section \<open>Concrete sessions and inputs\<close>

text \<open>
  A Bombay session in which every browser call succeeds but the wait for the result
  container, which times out; and a Delhi driver whose wait for the result rows times
  out.
\<close>

definition timeout_session :: session where
  "timeout_session =
     \<lparr> outcome = (\<lambda>a. if a = ''wait_for_selector #tb_causelist'' then Some PlaywrightTimeout
                        else None),
       container_text = [], nodes = [] \<rparr>"

definition stalled_driver :: "action \<Rightarrow> exn option" where
  "stalled_driver a = (if a = ''wait rows populated'' then Some SeleniumTimeout else None)"

text \<open>
  An empty disk with no request made, a network that serves the same PDF for every
  URL, and a network that is down.
\<close>

definition empty_world :: world where
  "empty_world = \<lparr> files = Map.empty, requests = [] \<rparr>"

definition pdf_server :: http where
  "pdf_server history url = Inr ''%PDF-1.7''"

definition offline :: http where
  "offline history url = Inl ConnectionError"

text \<open>
  A CERC reply that is valid JSON but an object instead of an array,
  \<open>{"cases": []}\<close>, and the values of \<open>json.loads\<close> at this reply and at \<open>[]\<close>.
\<close>

definition object_reply :: string where
  "object_reply = ''{'' @ [CHR 0x22] @ ''cases'' @ [CHR 0x22] @ '': []}''"

definition loads_replies :: "string \<Rightarrow> pyval option" where
  "loads_replies s =
     (if s = object_reply then Some (PDict [(''cases'', PList [])])
      else if s = ''[]'' then Some (PList [])
      else None)"

definition object_llm :: cerc_llm where
  "object_llm prompt_text = Inr (Some object_reply)"

text \<open>An NCLAT extraction that returns one row for every page it is given.\<close>

definition one_row_llm :: nclat_llm where
  "one_row_llm page_text party_name court_no judges =
     Inr [\<lparr> cm_case_number = ''CA(AT) 12/2024'', cm_parties = ''Ramesh Kumar vs State'',
            cm_appellant_counsel = ''Mr. A'', cm_respondent_counsel = ''Ms. B'',
            cm_court_no = court_no, cm_judges = judges \<rparr>]"

text \<open>
  A Bombay session in which the tab \<open>Party\<close> is not found, so that the click on it times
  out.
\<close>

definition missing_tab_session :: session where
  "missing_tab_session =
     \<lparr> outcome = (\<lambda>a. if a = ''click Party'' then Some PlaywrightTimeout else None),
       container_text = [], nodes = [] \<rparr>"

text \<open>
  Two days of NCLAT cause lists.  The list of 02/02/2024 is stored as \<open>a.pdf\<close> and has one
  page that names the party; the list of 01/02/2024 is stored as \<open>b.pdf\<close> and has no
  page.  \<open>feb_strptime\<close> gives the values of \<open>strptime\<close> with the format \<open>%d/%m/%Y\<close> at the
  two dates, and \<open>feb_download_pdfs\<close> the paths that \<open>download_pdfs\<close> returns for a range
  of these days, newest first as the site lists them.
\<close>

definition feb_strptime :: "string \<Rightarrow> datetime option" where
  "feb_strptime s =
     (if s = ''01/02/2024'' then Some 738917
      else if s = ''02/02/2024'' then Some 738918
      else None)"

definition feb_download_pdfs :: "datetime \<Rightarrow> datetime \<Rightarrow> exn + string list" where
  "feb_download_pdfs start_dt end_dt =
     Inr ((if start_dt \<le> 738918 \<and> 738918 \<le> end_dt then [''nclat_pdfs/a.pdf''] else []) @
          (if start_dt \<le> 738917 \<and> 738917 \<le> end_dt then [''nclat_pdfs/b.pdf''] else []))"

definition feb_open_pdf :: "string \<Rightarrow> exn + string option list" where
  "feb_open_pdf path =
     (if path = ''nclat_pdfs/a.pdf'' then Inr [Some ''COURT - II 1. Ramesh Kumar vs State'']
      else if path = ''nclat_pdfs/b.pdf'' then Inr []
      else Inl (Exception ''No such file''))"




section \<open>Properties\<close>

subsection \<open>Regular expressions and strings\<close>

lemma match_at_Chr:
  "match_at (Chr P) (prev, c # cs) = (if P c then Some 1 else None)"
  by (simp add: match_at_def)

lemma sub_go_Chr:
  "sub_go (Chr P) [b] prev 0 s = map (\<lambda>c. if P c then b else c) s"
  by (induction s arbitrary: prev) (simp_all add: match_at_Chr)

lemma run_ends_last:
  "run_ends P prev s \<noteq> [] \<and> snd (last (run_ends P prev s)) = dropWhile P s"
  by (induction s arbitrary: prev) auto

lemma run_ends_length:
  "length (run_ends P prev s) = Suc (length (takeWhile P s))"
  by (induction s arbitrary: prev) auto

lemma hd_ends_Plus:
  assumes "P c"
  shows "\<exists>y ys. ends (Many1 P) (prev, c # cs) = y # ys \<and> snd y = dropWhile P cs"
proof -
  define xs where "xs = run_ends P (Some c) cs"
  have ne: "xs \<noteq> []" and l: "snd (last xs) = dropWhile P cs"
    using run_ends_last [of P "Some c" cs] by (simp_all add: xs_def)
  have e: "ends (Many1 P) (prev, c # cs) = rev xs"
    using assms by (simp add: xs_def)
  have "rev xs = last xs # rev (butlast xs)"
    using ne by (metis append_butlast_last_id rev.simps(2) rev_append rev_rev_ident append_Cons append_Nil rev_singleton_conv)
  with e l show ?thesis by metis
qed

lemma match_at_Plus:
  "match_at (Many1 P) (prev, c # cs) =
     (if P c then Some (Suc (length (takeWhile P cs))) else None)"
proof (cases "P c")
  case False
  then show ?thesis by (simp add: match_at_def)
next
  case True
  obtain y ys where e: "ends (Many1 P) (prev, c # cs) = y # ys" and y: "snd y = dropWhile P cs"
    using hd_ends_Plus [of P c prev cs] True by blast
  have "length cs = length (takeWhile P cs) + length (dropWhile P cs)"
    by (metis length_append takeWhile_dropWhile_id)
  then have "length (c # cs) - length (dropWhile P cs) = Suc (length (takeWhile P cs))"
    by simp
  then show ?thesis
    using True by (simp only: match_at_def e y list.case snd_conv if_True)
qed

lemma sub_go_Plus_prev:
  "sub_go (Many1 P) repl q 0 t = sub_go (Many1 P) repl q' 0 t"
  by (cases t) (simp_all add: match_at_Plus)

lemma sub_go_Plus_skip:
  "sub_go (Many1 P) repl prev (length (takeWhile P s)) s = sub_go (Many1 P) repl prev' 0 (dropWhile P s)"
proof (induction s arbitrary: prev)
  case Nil
  show ?case by simp
next
  case (Cons c cs)
  show ?case
  proof (cases "P c")
    case True then show ?thesis using Cons.IH by simp
  next
    case False
    then show ?thesis using sub_go_Plus_prev [of P repl prev "c # cs" prev'] by simp
  qed
qed

lemma sub_go_Plus_Cons:
  "sub_go (Many1 P) repl prev 0 (c # cs) =
     (if P c then repl @ sub_go (Many1 P) repl None 0 (dropWhile P cs)
      else c # sub_go (Many1 P) repl None 0 cs)"
  using sub_go_Plus_skip [of P repl "Some c" cs None] sub_go_Plus_prev [of P repl "Some c" cs None]
  by (simp add: match_at_Plus)


lemma sub_ws_Nil: "re_sub ws_plus repl [] = []"
  by (simp add: re_sub_def)

lemma sub_ws_Cons:
  "re_sub ws_plus repl (c # cs) =
     (if is_space c then repl @ re_sub ws_plus repl (dropWhile is_space cs)
      else c # re_sub ws_plus repl cs)"
  by (simp only: re_sub_def ws_plus_def sub_go_Plus_Cons)

lemma sub_ws_head:
  "\<not> is_space c \<Longrightarrow> re_sub ws_plus repl (c # cs) = c # re_sub ws_plus repl cs"
  by (simp add: sub_ws_Cons)

lemma dropWhile_cases:
  obtains "dropWhile P xs = []" | d ds where "dropWhile P xs = d # ds" "\<not> P d"
  by (metis hd_dropWhile list.exhaust list.sel(1))

lemma squeezed_sub_ws: "squeezed (re_sub ws_plus '' '' s)"
proof (induction s rule: length_induct)
  case (1 s)
  show ?case
  proof (cases s)
    case Nil
    then show ?thesis by (simp add: sub_ws_Nil)
  next
    case (Cons c cs)
    show ?thesis
    proof (cases "is_space c")
      case True
      show ?thesis
      proof (cases rule: dropWhile_cases [of is_space cs])
        case 1
        have "re_sub ws_plus '' '' s = '' ''"
          using True by (simp only: Cons sub_ws_Cons 1 sub_ws_Nil if_True append_Nil2)
        then show ?thesis by simp
      next
        case (2 d ds)
        have "length (d # ds) < length s"
          using Cons length_dropWhile_le [of is_space cs] 2(1) by simp
        then have "squeezed (re_sub ws_plus '' '' (d # ds))" using 1 by blast
        then show ?thesis using True Cons 2 by (simp add: sub_ws_Cons)
      qed
    next
      case False
      have ih: "squeezed (re_sub ws_plus '' '' cs)" using 1 Cons by simp
      show ?thesis
      proof (cases "re_sub ws_plus '' '' cs")
        case Nil
        then show ?thesis using False Cons by (simp add: sub_ws_Cons)
      next
        case (Cons e es)
        then show ?thesis using False \<open>s = c # cs\<close> ih by (simp add: sub_ws_Cons)
      qed
    qed
  qed
qed

lemma sub_ws_squeezed: "squeezed s \<Longrightarrow> re_sub ws_plus '' '' s = s"
  by (induction s rule: squeezed.induct)
     (auto simp: sub_ws_Cons sub_ws_Nil split: if_splits)

lemma set_sub_ws: "set (re_sub ws_plus '' '' s) \<subseteq> insert CHR '' '' (set s)"
proof (induction s rule: length_induct)
  case (1 s)
  show ?case
  proof (cases s)
    case Nil
    then show ?thesis by (simp add: sub_ws_Nil)
  next
    case (Cons c cs)
    have a: "set (re_sub ws_plus '' '' cs) \<subseteq> insert CHR '' '' (set cs)"
      using 1 Cons by simp
    have "length (dropWhile is_space cs) < length s"
      using Cons length_dropWhile_le [of is_space cs] by simp
    then have b: "set (re_sub ws_plus '' '' (dropWhile is_space cs)) \<subseteq>
                    insert CHR '' '' (set (dropWhile is_space cs))"
      using 1 by blast
    have "set (dropWhile is_space cs) \<subseteq> set cs"
      by (auto dest: set_dropWhileD)
    with a b show ?thesis
      using Cons by (auto simp: sub_ws_Cons)
  qed
qed

lemma squeezed_tl: "squeezed (c # cs) \<Longrightarrow> squeezed cs"
  by (cases cs) (auto split: if_splits)

lemma squeezed_suffix: "squeezed (xs @ ys) \<Longrightarrow> squeezed ys"
  by (induction xs) (auto dest: squeezed_tl)

lemma squeezed_prefix: "squeezed (xs @ ys) \<Longrightarrow> squeezed xs"
proof (induction xs rule: squeezed.induct)
  case 1
  show ?case by simp
next
  case (2 c)
  then show ?case by (cases ys) (auto split: if_splits)
next
  case (3 c d ds)
  then show ?case by (auto split: if_splits)
qed

lemma strip_decomp:
  "\<exists>xs ys. s = xs @ strip s @ ys"
proof -
  have 1: "s = takeWhile is_space s @ dropWhile is_space s" by simp
  define t where "t = dropWhile is_space s"
  have "rev t = takeWhile is_space (rev t) @ dropWhile is_space (rev t)" by simp
  then have "t = rev (dropWhile is_space (rev t)) @ rev (takeWhile is_space (rev t))"
    by (metis rev_append rev_rev_ident)
  then have "t = strip s @ rev (takeWhile is_space (rev t))"
    by (simp add: strip_def t_def)
  with 1 show ?thesis unfolding t_def by metis
qed

lemma squeezed_strip: "squeezed s \<Longrightarrow> squeezed (strip s)"
  using strip_decomp [of s] by (metis squeezed_prefix squeezed_suffix)

lemma set_strip: "set (strip s) \<subseteq> set s"
  using strip_decomp [of s] by (metis Un_iff set_append subsetI)

lemma strip_unchanged:
  "(s = [] \<or> (\<not> is_space (hd s) \<and> \<not> is_space (last s))) \<Longrightarrow> strip s = s"
proof (cases "s = []")
  case True
  then show ?thesis by (simp add: strip_def)
next
  case False
  assume "s = [] \<or> (\<not> is_space (hd s) \<and> \<not> is_space (last s))"
  with False have h: "\<not> is_space (hd s)" and l: "\<not> is_space (last s)" by simp_all
  have 1: "dropWhile is_space s = s" using h by (simp add: dropWhile_eq_self_iff)
  have "hd (rev s) = last s" using False by (simp add: hd_rev)
  then have 2: "dropWhile is_space (rev s) = rev s" using l by (simp add: dropWhile_eq_self_iff)
  show ?thesis by (simp add: strip_def 1 2)
qed

lemma strip_ends:
  "strip s = [] \<or> (\<not> is_space (hd (strip s)) \<and> \<not> is_space (last (strip s)))"
proof (cases "strip s = []")
  case True then show ?thesis by simp
next
  case False
  define t where "t = dropWhile is_space s"
  define u where "u = dropWhile is_space (rev t)"
  have s: "strip s = rev u" by (simp add: strip_def t_def u_def)
  have une: "u \<noteq> []" using False s by simp
  have l: "\<not> is_space (hd u)" using une unfolding u_def by (rule hd_dropWhile)
  have tne: "t \<noteq> []" using une u_def by auto
  have ht: "\<not> is_space (hd t)" using tne unfolding t_def by (rule hd_dropWhile)
  have "rev t = takeWhile is_space (rev t) @ u" by (simp add: u_def)
  then have "t = rev u @ rev (takeWhile is_space (rev t))"
    by (metis rev_append rev_rev_ident)
  then have "hd t = hd (rev u)" using une by (metis hd_append2 rev_is_Nil_conv)
  moreover have "last (rev u) = hd u" using une by (simp add: last_rev)
  ultimately show ?thesis using s l ht by simp
qed

lemma strip_strip: "strip (strip s) = strip s"
  using strip_ends [of s] by (rule strip_unchanged)

lemma lower_chr_idem: "lower_chr (lower_chr c) = lower_chr c"
proof (cases "is_upper c")
  case False then show ?thesis by (simp add: lower_chr_def)
next
  case True
  then have b: "code c + 32 < 256" by (auto simp: is_upper_def code_def Let_def)
  have "code (char_of (code c + 32)) = code c + 32"
    using b by (simp add: code_def)
  then have "\<not> is_upper (char_of (code c + 32))"
    using True by (auto simp: is_upper_def Let_def)
  then show ?thesis using True by (simp add: lower_chr_def)
qed

lemma lower_chr_space: "lower_chr CHR '' '' = CHR '' ''"
  by (simp add: lower_chr_def is_upper_def code_def)

lemma lower_fixed:
  "\<forall>c \<in> set s. lower_chr c = c \<Longrightarrow> lower s = s"
  by (simp add: lower_def map_idI)

subsection \<open>Text normalization\<close>

lemma is_space_blank: "is_space CHR '' ''"
  by (simp add: is_space_def code_def)

lemma sub_punct: "re_sub (Chr is_punct) '' '' s = map (\<lambda>c. if is_punct c then CHR '' '' else c) s"
  by (simp add: re_sub_def sub_go_Chr)

lemma set_squeeze_strip:
  "set (strip (re_sub ws_plus '' '' s)) \<subseteq> insert CHR '' '' (set s)"
  using set_strip [of "re_sub ws_plus '' '' s"] set_sub_ws [of s] by blast

lemma squeeze_strip_fixed:
  "re_sub ws_plus '' '' (strip (re_sub ws_plus '' '' s)) = strip (re_sub ws_plus '' '' s)"
  by (intro sub_ws_squeezed squeezed_strip squeezed_sub_ws)

lemma normalize_nclat_chars:
  assumes "c \<in> set (normalize_nclat x)"
  shows "lower_chr c = c \<and> \<not> is_punct c"
proof -
  have "c \<in> insert CHR '' '' (set (re_sub (Chr is_punct) '' '' (lower x)))"
    using assms set_squeeze_strip by (auto simp: normalize_nclat_def Let_def)
  then show ?thesis
    by (auto simp: sub_punct lower_def lower_chr_idem lower_chr_space is_punct_def is_space_blank
             split: if_splits)
qed

lemma normalize_nclat_idem: "normalize_nclat (normalize_nclat x) = normalize_nclat x"
proof -
  define y where "y = normalize_nclat x"
  have y: "y = strip (re_sub ws_plus '' '' (re_sub (Chr is_punct) '' '' (lower x)))"
    by (simp add: y_def normalize_nclat_def Let_def)
  have 1: "lower y = y"
    by (rule lower_fixed) (simp add: y_def normalize_nclat_chars)
  have 2: "re_sub (Chr is_punct) '' '' y = y"
    unfolding sub_punct by (rule map_idI) (simp add: y_def normalize_nclat_chars)
  have 3: "re_sub ws_plus '' '' y = y"
    unfolding y by (rule squeeze_strip_fixed)
  have 4: "strip y = y"
    unfolding y by (rule strip_strip)
  have "normalize_nclat y = y"
    by (simp add: normalize_nclat_def Let_def 1 2 3 4)
  then show ?thesis by (simp add: y_def)
qed

lemma delhi_normalize_text_idem:
  "delhi_normalize_text (delhi_normalize_text x) = delhi_normalize_text x"
proof (cases "x = []")
  case True
  then show ?thesis by (simp add: delhi_normalize_text_def)
next
  case False
  define y where "y = delhi_normalize_text x"
  have y: "y = strip (re_sub ws_plus '' '' (replace_chr (CHR 0x0A) CHR '' '' (lower x)))"
    using False by (simp add: y_def delhi_normalize_text_def Let_def)
  have ch: "lower_chr c = c \<and> c \<noteq> CHR 0x0A" if "c \<in> set y" for c
  proof -
    have "c \<in> insert CHR '' '' (set (replace_chr (CHR 0x0A) CHR '' '' (lower x)))"
      using that set_squeeze_strip unfolding y by blast
    then show ?thesis
      by (auto simp: replace_chr_def lower_def lower_chr_idem lower_chr_space split: if_splits)
  qed
  have 1: "lower y = y"
    by (rule lower_fixed) (simp add: ch)
  have 2: "replace_chr (CHR 0x0A) CHR '' '' y = y"
    unfolding replace_chr_def by (rule map_idI) (simp add: ch)
  have 3: "re_sub ws_plus '' '' y = y"
    unfolding y by (rule squeeze_strip_fixed)
  have 4: "strip y = y"
    unfolding y by (rule strip_strip)
  have "delhi_normalize_text y = y"
    by (cases "y = []") (simp_all add: delhi_normalize_text_def Let_def 1 2 3 4)
  then show ?thesis by (simp add: y_def)
qed

lemma bombay_normalize_text_idem:
  "bombay_normalize_text (bombay_normalize_text x) = bombay_normalize_text x"
proof -
  define y where "y = bombay_normalize_text x"
  have y: "y = strip (re_sub ws_plus '' '' (replace_chr (CHR 0xA0) CHR '' '' x))"
    by (simp add: y_def bombay_normalize_text_def)
  have ch: "c \<noteq> CHR 0xA0" if "c \<in> set y" for c
  proof -
    have "c \<in> insert CHR '' '' (set (replace_chr (CHR 0xA0) CHR '' '' x))"
      using that set_squeeze_strip unfolding y by blast
    then show ?thesis
      by (auto simp: replace_chr_def split: if_splits)
  qed
  have 2: "replace_chr (CHR 0xA0) CHR '' '' y = y"
    unfolding replace_chr_def by (rule map_idI) (simp add: ch)
  have 3: "re_sub ws_plus '' '' y = y"
    unfolding y by (rule squeeze_strip_fixed)
  have 4: "strip y = y"
    unfolding y by (rule strip_strip)
  have "bombay_normalize_text y = y"
    by (simp add: bombay_normalize_text_def 2 3 4)
  then show ?thesis by (simp add: y_def)
qed

text \<open>
  \<open>normalize\<close> of the NCLAT scraper and \<open>normalize_text\<close> of the Delhi and of the Bombay
  scraper are idempotent: normalizing a normalized string changes nothing.
\<close>

lemma normalizers_idempotent:
  "normalize_nclat (normalize_nclat x) = normalize_nclat x \<and>
   delhi_normalize_text (delhi_normalize_text y) = delhi_normalize_text y \<and>
   bombay_normalize_text (bombay_normalize_text z) = bombay_normalize_text z"
  by (simp only: normalize_nclat_idem delhi_normalize_text_idem bombay_normalize_text_idem simp_thms)

lemma normalize_name_joined_tokens:
  "normalize_name (Some ''O&R Utilities'') = ''or utilities'' \<and>
   normalize_name (Some ''or utilities'') = ''utilities''"
  by code_simp

text \<open>
  Claim C9 at the input \<open>o&r\<close>.  \<open>normalize_name\<close> of the Supreme Court scraper is not
  idempotent: the noise pattern deletes an \<open>&\<close> that stands between two word characters,
  which joins its neighbours; here it leaves \<open>or\<close>, and a second pass deletes \<open>or\<close> as a
  noise token.  The claim says that the second pass changes nothing.
\<close>

theorem normalize_name_not_idempotent:
  "normalize_name (Some ''o&r'') = ''or'' \<and>
   normalize_name (Some (normalize_name (Some ''o&r''))) = []"
  by code_simp

subsection \<open>Splitting a party string\<close>

lemma split_petitioner_respondent_examples:
  "split_petitioner_respondent ''A vs B'' = (''A'', ''B'') \<and>
   split_petitioner_respondent ''A versus B'' = (''A'', ''B'') \<and>
   split_petitioner_respondent ''A v B'' = (''A'', ''B'') \<and>
   split_petitioner_respondent ''SoloName'' = (''SoloName'', ''N/A'')"
  by code_simp

lemma split_parties_examples:
  "split_parties ''A vs B'' = (''A'', ''B'') \<and>
   split_parties ''A V B'' = (''A'', ''B'') \<and>
   split_parties ''SoloName'' = (''SoloName'', ''N/A'') \<and>
   nclat_split_parties ''A vs B'' = (''A'', ''B'') \<and>
   nclat_split_parties ''SoloName'' = (''SoloName'', ''N/A'')"
  by code_simp

lemma split_parties_empty:
  "split_parties [] = (''N/A'', ''N/A'') \<and> split_petitioner_respondent [] = (''N/A'', ''N/A'')"
  by (simp add: split_parties_def split_petitioner_respondent_def)

text \<open>
  Claim C2 at the input \<open>A versus B\<close>.  \<open>split_parties\<close> of the Bombay scraper (the Delhi
  and NCLAT ones use the same pattern) does not know the separator \<open>versus\<close>: the whole
  string becomes the petitioner.  \<open>split_petitioner_respondent\<close> of the Supreme Court
  scraper splits it as the claim says.
\<close>

theorem split_parties_versus:
  "split_parties ''A versus B'' = (''A versus B'', ''N/A'') \<and>
   nclat_split_parties ''A versus B'' = (''A versus B'', ''N/A'') \<and>
   split_petitioner_respondent ''A versus B'' = (''A'', ''B'')"
  by code_simp

subsection \<open>Bombay High Court: rows of the result table\<close>

lemma run_ends_Nil_iff:
  "list_ex (\<lambda>y. snd y = []) (run_ends P prev s) \<longleftrightarrow> list_all P s"
  by (induction s arbitrary: prev) auto

lemma re_fullmatch_Many1:
  "re_fullmatch (Many1 P) s \<longleftrightarrow> s \<noteq> [] \<and> list_all P s"
proof (cases s)
  case Nil
  then show ?thesis by (simp add: re_fullmatch_def)
next
  case (Cons c cs)
  then show ?thesis
    using run_ends_Nil_iff [of P "Some c" cs]
    by (fastforce simp: re_fullmatch_def list_ex_iff)
qed

text \<open>
  Claim C7.  A row of four cells whose leading cell, normalized, is a non-empty string
  of digits appends a new main case to \<open>results\<close> and makes it the current one, whatever
  the state before it: the earlier entries are unchanged, so the row is not taken as a
  continuation of the previous case.
\<close>

theorem digit_row_is_new_case:
  assumes "bombay_normalize_text cell0 \<noteq> []"
    and "list_all is_digit (bombay_normalize_text cell0)"
  shows "\<exists>c. table_row bench court_time court_no date_val (results, current, last_case_no)
               [cell0, cell1, cell2, cell3] =
             (results @ [c], Some (length results), Some (bombay_normalize_text cell1)) \<and>
             mc_case_number c = bombay_normalize_text cell1 \<and> mc_with_cases c = []"
proof -
  have "is_new_case (bombay_normalize_text cell0) (bombay_normalize_text cell1) last_case_no"
    using assms by (simp add: is_new_case_def re_fullmatch_Many1)
  then show ?thesis
    by (simp add: Let_def split: prod.splits)
qed

theorem digit_row_is_new_case_witness:
  "\<exists>c. table_row ''N/A'' ''N/A'' ''N/A'' ''01-02-2024''
          ([], None, Some ''WP/1/2024'') [''0'', ''WP/1/2024'', ''A vs B'', []] =
        ([] @ [c], Some (length ([] :: main_case list)), Some (bombay_normalize_text ''WP/1/2024'')) \<and>
        mc_case_number c = bombay_normalize_text ''WP/1/2024'' \<and> mc_with_cases c = []"
proof -
  have 1: "bombay_normalize_text ''0'' \<noteq> []" by code_simp
  have 2: "list_all is_digit (bombay_normalize_text ''0'')" by code_simp
  show ?thesis by (rule digit_row_is_new_case [OF 1 2])
qed

lemma zero_row_after_same_case:
  "extract_cases_from_table
     [[''1'', ''WP/1/2024'', ''A vs B'', ''Adv. X''], [''0'', ''WP/1/2024'', ''C vs D'', []]]
     ''N/A'' ''N/A'' ''N/A'' ''01-02-2024'' =
   [\<lparr> mc_case_number = ''WP/1/2024'', mc_petitioner = ''A'', mc_respondent = ''B'',
      mc_advocates = ''Adv. X'', mc_court = ''Bombay High Court'', mc_judge = ''N/A'',
      mc_court_no = ''N/A'', mc_date = ''01-02-2024'', mc_court_time = ''N/A'',
      mc_with_cases = [], mc_remarks = [] \<rparr>,
    \<lparr> mc_case_number = ''WP/1/2024'', mc_petitioner = ''C'', mc_respondent = ''D'',
      mc_advocates = ''N/A'', mc_court = ''Bombay High Court'', mc_judge = ''N/A'',
      mc_court_no = ''N/A'', mc_date = ''01-02-2024'', mc_court_time = ''N/A'',
      mc_with_cases = [], mc_remarks = [] \<rparr>]"
  by code_simp

subsection \<open>Range scan\<close>

lemma range_loop_concat:
  "end_dt < date_max \<Longrightarrow>
   range_loop search strftime party_name end_dt current acc =
     Inr (acc @ concat (map (day_records search strftime party_name) [current ..< Suc end_dt]))"
proof (induction search strftime party_name end_dt current acc rule: range_loop.induct)
  case (1 search strftime party_name end_dt current all_results)
  show ?case
  proof (cases "current \<le> end_dt")
    case False
    then show ?thesis by (simp add: range_loop.simps [of _ _ _ end_dt current])
  next
    case True
    with "1.prems" have lt: "current < date_max" by simp
    have step: "add_one_day current = Inr (Suc current)"
      using lt by (simp add: add_one_day_def)
    have up: "[current ..< Suc end_dt] = current # [Suc current ..< Suc end_dt]"
      using True by (simp add: upt_conv_Cons)
    define acc' where "acc' = all_results @ day_records search strftime party_name current"
    have acc': "(case search party_name (strftime current) of
                   Inr daily_results \<Rightarrow> all_results @ daily_results
                 | Inl e \<Rightarrow> all_results) = acc'"
      by (simp add: acc'_def day_records_def split: sum.splits)
    have "range_loop search strftime party_name end_dt current all_results =
            range_loop search strftime party_name end_dt (Suc current) acc'"
      using True by (subst range_loop.simps) (simp only: acc' step Let_def if_True sum.case)
    also have "\<dots> = Inr (acc' @ concat (map (day_records search strftime party_name)
                                          [Suc current ..< Suc end_dt]))"
      using "1.IH" [OF True refl refl step "1.prems"] by (simp only: acc')
    finally show ?thesis
      by (simp only: up acc'_def list.map concat.simps append_assoc)
  qed
qed

lemma search_range_concat:
  assumes "strptime start_date = Some s" and "strptime end_date = Some e"
    and "s \<le> e" and "e < date_max"
  shows "search_range invalid_format strptime strftime search party_name start_date end_date =
           Inr (concat (map (day_records search strftime party_name) [s ..< Suc e]))"
  using assms by (simp add: search_range_def range_loop_concat)

lemma search_range_invalid_format:
  "strptime start_date = None \<or> strptime end_date = None \<Longrightarrow>
   search_range invalid_format strptime strftime search party_name start_date end_date =
     Inl (Exception invalid_format)"
  by (auto simp: search_range_def split: option.splits)

lemma search_range_overflow:
  assumes "strptime start_date = Some s" and "strptime end_date = Some date_max"
    and "s \<le> date_max"
  shows "search_range invalid_format strptime strftime search party_name start_date end_date =
           Inl OverflowError"
proof -
  have "range_loop search strftime party_name date_max current acc = Inl OverflowError"
    if "current \<le> date_max" for current and acc :: "'a list"
    using that
  proof (induction "date_max - current" arbitrary: current acc)
    case 0
    then have "current = date_max" by simp
    then show ?case
      by (subst range_loop.simps) (simp add: add_one_day_def Let_def)
  next
    case (Suc n)
    then have lt: "current < date_max" and n: "n = date_max - Suc current" by simp_all
    have "range_loop search strftime party_name date_max (Suc current) acc' = Inl OverflowError"
      for acc' :: "'a list"
      using Suc.hyps(1) [OF n] lt by simp
    then show ?case
      using lt by (subst range_loop.simps) (simp add: add_one_day_def Let_def)
  qed
  then show ?thesis
    using assms by (simp add: search_range_def)
qed

text \<open>
  The day loop of the Bombay, Delhi and Supreme Court scrapers isolates a failing day.
  Over a range whose dates parse, with start not after end and the end before
  9999-12-31 (the last \<open>datetime\<close>), if the per-day search raises for one day \<open>k\<close> and
  returns \<open>recs d\<close> for every other day \<open>d\<close> of the range, then \<open>search_range\<close> returns the
  records of every other day, concatenated in ascending order of the days.
\<close>

lemma search_range_isolates_failed_day:
  assumes "strptime start_date = Some s" and "strptime end_date = Some e"
    and "s \<le> e" and "e < date_max"
    and "search party_name (strftime k) = Inl x"
    and "\<forall>d. s \<le> d \<and> d \<le> e \<and> d \<noteq> k \<longrightarrow> search party_name (strftime d) = Inr (recs d)"
  shows "search_range invalid_format strptime strftime search party_name start_date end_date =
           Inr (concat (map recs (filter (\<lambda>d. d \<noteq> k) [s ..< Suc e])))"
proof -
  have eq: "concat (map (day_records search strftime party_name) ds) =
        concat (map recs (filter (\<lambda>d. d \<noteq> k) ds))" if "set ds \<subseteq> {s..e}" for ds
    using that assms(5,6) by (induction ds) (auto simp: day_records_def)
  have sub: "set [s ..< Suc e] \<subseteq> {s..e}"
    by (auto simp del: upt_Suc)
  show ?thesis
    by (simp only: search_range_concat [OF assms(1-4)] eq [OF sub])
qed

lemma search_range_isolates_failed_day_example:
  "search_range bombay_invalid_format last_days_strptime last_days_strftime failing_29_search
     ''Ramesh Kumar'' ''28-12-9999'' ''30-12-9999'' =
     Inr [''28-12-9999'', ''30-12-9999'']"
proof -
  have up: "[3652056 ..< Suc 3652058] = [3652056, 3652057, 3652058::nat]"
    by (simp add: upt_rec)
  have "search_range bombay_invalid_format last_days_strptime last_days_strftime failing_29_search
          ''Ramesh Kumar'' ''28-12-9999'' ''30-12-9999'' =
        Inr (concat (map (\<lambda>d. [last_days_strftime d])
                      (filter (\<lambda>d. d \<noteq> 3652057) [3652056 ..< Suc 3652058])))"
    by (rule search_range_isolates_failed_day
              [where x = "Exception ''Bombay HC: #tb_causelist not found.''"])
       (simp_all add: last_days_strptime_def last_days_strftime_def failing_29_search_def
          date_max_def)
  then show ?thesis
    by (simp only: up) (simp add: last_days_strftime_def)
qed

text \<open>
  On a range that ends on 31-12-9999 the day loop returns no list: stepping past the
  last day raises \<open>OverflowError\<close> outside the handler.
\<close>

lemma search_range_last_day_overflow:
  "search_range bombay_invalid_format last_days_strptime last_days_strftime failing_29_search
     ''Ramesh Kumar'' ''29-12-9999'' ''31-12-9999'' = Inl OverflowError"
  by (simp add: search_range_def last_days_strptime_def last_days_strftime_def
        failing_29_search_def range_loop.simps add_one_day_def date_max_def)

subsection \<open>Party matching\<close>

lemma str_in_Nil: "str_in [] b"
  by (cases b) simp_all

lemma split_acc_Nil_iff:
  "split_acc cur s = [] \<longleftrightarrow> cur = [] \<and> (\<forall>c \<in> set s. is_space c)"
  by (induction s arbitrary: cur) auto

lemma split_ws_Nil_iff: "split_ws s = [] \<longleftrightarrow> (\<forall>c \<in> set s. is_space c)"
  by (simp add: split_ws_def split_acc_Nil_iff)

lemma strip_all_space: "\<forall>c \<in> set (strip s). is_space c \<Longrightarrow> strip s = []"
  using strip_ends [of s] by (cases "strip s") auto

lemma normalize_name_stripped: "strip (normalize_name a) = normalize_name a"
proof (cases a)
  case None
  then show ?thesis by (simp add: normalize_name_def strip_def)
next
  case (Some t)
  then show ?thesis by (simp add: normalize_name_def Let_def strip_strip)
qed

lemma normalize_name_no_tokens:
  assumes "split_ws (normalize_name a) = []"
  shows "normalize_name a = []"
proof -
  have "\<forall>c \<in> set (strip (normalize_name a)). is_space c"
    using assms by (simp add: split_ws_Nil_iff normalize_name_stripped)
  then have "strip (normalize_name a) = []" by (rule strip_all_space)
  then show ?thesis by (simp add: normalize_name_stripped)
qed

text \<open>
  The matcher of the Supreme Court scraper does what claim C6 says: a page matches when
  the normalized party name is a substring of the normalized page text, and also when
  every token of the normalized name occurs in it.
\<close>

lemma supreme_matcher_substring:
  "str_in (normalize_name party) (normalize_name (Some text)) \<Longrightarrow>
   page_matches (normalize_name party) (normalize_name (Some text))"
  by (simp add: page_matches_def)

lemma supreme_matcher_tokens:
  assumes "list_all (\<lambda>t. str_in t (normalize_name (Some text))) (split_ws (normalize_name party))"
  shows "page_matches (normalize_name party) (normalize_name (Some text))"
proof (cases "split_ws (normalize_name party) = []")
  case True
  then have "normalize_name party = []" by (rule normalize_name_no_tokens)
  then show ?thesis by (simp add: page_matches_def str_in_Nil)
next
  case False
  with assms show ?thesis by (simp add: page_matches_def Let_def)
qed

lemma matched_pages_reordered_name:
  "matched_pages (Some ''Kumar Ramesh'') [None, Some ''1. Ramesh Kumar vs State'', Some ''2. X vs Y''] = [1]"
  by code_simp

text \<open>The matcher of the NCLAT scraper is the substring test alone.\<close>

lemma nclat_matcher_substring:
  "nclat_page_matches (normalize_nclat party) text =
     str_in (normalize_nclat party) (normalize_nclat text)"
  by (simp add: nclat_page_matches_def)

text \<open>
  Claim C6 at the party name \<open>Kumar Ramesh\<close> and the page text \<open>Ramesh Kumar vs State\<close>.
  Every token of the normalized name occurs in the normalized page text, the Supreme
  Court matcher accepts the page, and the NCLAT matcher rejects it:
  \<open>search_party_in_pdf\<close> returns no row, whatever the extraction would have answered.
\<close>

theorem nclat_matcher_has_no_token_fallback:
  "list_all (\<lambda>t. str_in t (normalize_nclat ''Ramesh Kumar vs State''))
     (split_ws (normalize_nclat ''Kumar Ramesh'')) \<and>
   page_matches (normalize_name (Some ''Kumar Ramesh''))
     (normalize_name (Some ''Ramesh Kumar vs State'')) \<and>
   \<not> nclat_page_matches (normalize_nclat ''Kumar Ramesh'') ''Ramesh Kumar vs State'' \<and>
   search_party_in_pdf one_row_llm [Some ''Ramesh Kumar vs State''] ''Kumar Ramesh'' = Inr []"
  by code_simp

subsection \<open>The file cache\<close>

lemma download_pdf_cached:
  "files w (sc_pdf_path cause_date) \<noteq> None \<Longrightarrow>
   download_pdf http cause_date w = (Inr (sc_pdf_path cause_date), w)"
  by (simp add: download_pdf_def Let_def)

lemma download_pdf_result:
  assumes "download_pdf http cause_date w = (Inr p, w1)"
  shows "p = sc_pdf_path cause_date \<and> files w1 p \<noteq> None \<and>
         (if files w p = None then requests w1 = requests w @ [sc_url cause_date] else w1 = w)"
  using assms by (auto simp: download_pdf_def Let_def split: if_splits sum.splits)

lemma download_pdf_failed:
  assumes "download_pdf http cause_date w = (Inl e, w1)"
  shows "files w1 = files w \<and> requests w1 = requests w @ [sc_url cause_date]"
  using assms by (auto simp: download_pdf_def Let_def split: if_splits sum.splits)

lemma nclat_fetch_row_cached:
  "files w (path_join ''nclat_pdfs'' (last_segment pdf_url)) \<noteq> None \<Longrightarrow>
   nclat_fetch_row http pdf_url w = (Inr (path_join ''nclat_pdfs'' (last_segment pdf_url)), w)"
  by (auto simp: nclat_fetch_row_def Let_def)

lemma nclat_fetch_row_result:
  assumes "nclat_fetch_row http pdf_url w = (Inr p, w1)"
  shows "p = path_join ''nclat_pdfs'' (last_segment pdf_url) \<and> files w1 p \<noteq> None \<and>
         (if files w p = None then requests w1 = requests w @ [pdf_url] else w1 = w)"
  using assms by (auto simp: nclat_fetch_row_def Let_def split: if_splits sum.splits)

text \<open>
  Claim C5.  When a first request for a document has stored it (or found it stored),
  a second request for the same identity returns the same path and leaves the world
  as it is: no HTTP request is issued, whatever the network would answer.  If the file
  was absent at first, the two calls together issue exactly one request, for this
  document; if it was present, none.  This holds for \<open>download_pdf\<close> of the Supreme
  Court scraper and for the row step of \<open>download_pdfs\<close> of the NCLAT scraper.
\<close>

theorem cached_document_not_fetched_again:
  "(download_pdf http cause_date w = (Inr p, w1) \<longrightarrow>
      download_pdf http' cause_date w1 = (Inr p, w1) \<and>
      (files w p = None \<longrightarrow> requests w1 = requests w @ [sc_url cause_date]) \<and>
      (files w p \<noteq> None \<longrightarrow> requests w1 = requests w)) \<and>
   (nclat_fetch_row http pdf_url w = (Inr q, w2) \<longrightarrow>
      nclat_fetch_row http' pdf_url w2 = (Inr q, w2) \<and>
      (files w q = None \<longrightarrow> requests w2 = requests w @ [pdf_url]) \<and>
      (files w q \<noteq> None \<longrightarrow> requests w2 = requests w))"
proof (intro conjI impI)
  assume a: "download_pdf http cause_date w = (Inr p, w1)"
  note r = download_pdf_result [OF a]
  have p: "p = sc_pdf_path cause_date" and f: "files w1 (sc_pdf_path cause_date) \<noteq> None"
    using r by blast+
  show "download_pdf http' cause_date w1 = (Inr p, w1)"
    unfolding p by (rule download_pdf_cached [OF f])
  show "requests w1 = requests w @ [sc_url cause_date]" if "files w p = None"
    using r that by simp
  show "requests w1 = requests w" if "files w p \<noteq> None"
    using r that by (simp split: if_splits)
next
  assume a: "nclat_fetch_row http pdf_url w = (Inr q, w2)"
  note r = nclat_fetch_row_result [OF a]
  have q: "q = path_join ''nclat_pdfs'' (last_segment pdf_url)"
    and f: "files w2 (path_join ''nclat_pdfs'' (last_segment pdf_url)) \<noteq> None"
    using r by blast+
  show "nclat_fetch_row http' pdf_url w2 = (Inr q, w2)"
    unfolding q by (rule nclat_fetch_row_cached [OF f])
  show "requests w2 = requests w @ [pdf_url]" if "files w q = None"
    using r that by simp
  show "requests w2 = requests w" if "files w q \<noteq> None"
    using r that by (simp split: if_splits)
qed

theorem cached_document_not_fetched_again_witness:
  "download_pdf offline ''2024-02-01'' (snd (download_pdf pdf_server ''2024-02-01'' empty_world)) =
     (Inr ''data/sc_cause_list_2024-02-01.pdf'',
      snd (download_pdf pdf_server ''2024-02-01'' empty_world)) \<and>
   requests (snd (download_pdf pdf_server ''2024-02-01'' empty_world)) =
     [''https://api.sci.gov.in/jonew/cl/2024-02-01/M_J_1.pdf''] \<and>
   nclat_fetch_row offline ''https://nclat.nic.in/sites/default/files/list1.pdf''
       (snd (nclat_fetch_row pdf_server ''https://nclat.nic.in/sites/default/files/list1.pdf''
               empty_world)) =
     (Inr ''nclat_pdfs/list1.pdf'',
      snd (nclat_fetch_row pdf_server ''https://nclat.nic.in/sites/default/files/list1.pdf''
             empty_world)) \<and>
   requests (snd (nclat_fetch_row pdf_server ''https://nclat.nic.in/sites/default/files/list1.pdf''
                    empty_world)) =
     [''https://nclat.nic.in/sites/default/files/list1.pdf'']"
proof -
  define w1 where "w1 = snd (download_pdf pdf_server ''2024-02-01'' empty_world)"
  define w2 where "w2 = snd (nclat_fetch_row pdf_server
                               ''https://nclat.nic.in/sites/default/files/list1.pdf'' empty_world)"
  have a: "download_pdf pdf_server ''2024-02-01'' empty_world =
             (Inr ''data/sc_cause_list_2024-02-01.pdf'', w1)"
    by (simp add: w1_def download_pdf_def sc_pdf_path_def empty_world_def pdf_server_def Let_def)
  have b: "nclat_fetch_row pdf_server ''https://nclat.nic.in/sites/default/files/list1.pdf''
             empty_world = (Inr ''nclat_pdfs/list1.pdf'', w2)"
    by (simp add: w2_def nclat_fetch_row_def last_segment_def path_join_def empty_world_def
          pdf_server_def Let_def)
  have e: "files empty_world p = None" "requests empty_world = []" for p
    by (simp_all add: empty_world_def)
  show ?thesis
    using cached_document_not_fetched_again
            [of pdf_server "''2024-02-01''" empty_world "''data/sc_cause_list_2024-02-01.pdf''" w1
                offline "''https://nclat.nic.in/sites/default/files/list1.pdf''"
                "''nclat_pdfs/list1.pdf''" w2]
          a b e
    by (simp add: w1_def [symmetric] w2_def [symmetric] sc_url_def)
qed

subsection \<open>Browser sessions\<close>

lemma run_actions_ok:
  "\<forall>a \<in> set as. out a = None \<Longrightarrow> run_actions out as = (as, None)"
  by (induction as) auto

lemma run_actions_fail:
  "\<exists>a \<in> set as. out a \<noteq> None \<Longrightarrow> \<exists>t e. run_actions out as = (t, Some e)"
proof (induction as)
  case Nil
  then show ?case by simp
next
  case (Cons a as)
  show ?case
  proof (cases "out a")
    case (Some e)
    then show ?thesis by simp
  next
    case None
    with Cons.prems have "\<exists>a \<in> set as. out a \<noteq> None" by auto
    then obtain t e where "run_actions out as = (t, Some e)" using Cons.IH by blast
    then show ?thesis using None by simp
  qed
qed

lemma run_actions_cases:
  obtains t e where "run_actions out as = (t, Some e)" "\<exists>a \<in> set as. out a \<noteq> None"
  | "run_actions out as = (as, None)" "\<forall>a \<in> set as. out a = None"
proof (cases "\<forall>a \<in> set as. out a = None")
  case True
  then show ?thesis using run_actions_ok that by blast
next
  case False
  then show ?thesis using run_actions_fail [of as out] that by blast
qed

text \<open>Once the driver runs, \<open>monitor\<close> of the Delhi scraper returns a list on every path.\<close>

lemma monitor_returns:
  assumes "driver ''webdriver.Chrome'' = None"
  shows "\<exists>rs. fst (monitor driver rows convert keyword year) = Inr rs"
proof (cases rule: run_actions_cases [of driver monitor_setup])
  case (1 t e)
  then show ?thesis using assms by (simp add: monitor_def)
next
  case s: 2
  show ?thesis
  proof (cases rule: run_actions_cases [of driver monitor_table])
    case (1 t e)
    then show ?thesis using assms s by (simp add: monitor_def Let_def)
  next
    case 2
    then show ?thesis using assms s
      by (simp add: monitor_def Let_def split: sum.splits)
  qed
qed

lemma monitor_failure_empty:
  assumes "driver ''webdriver.Chrome'' = None"
    and "(\<exists>a \<in> set (monitor_setup @ monitor_table). driver a \<noteq> None) \<or>
         (\<exists>e. convert_rows convert rows = Inl e)"
  shows "fst (monitor driver rows convert keyword year) = Inr []"
proof (cases rule: run_actions_cases [of driver monitor_setup])
  case (1 t e)
  then show ?thesis using assms by (simp add: monitor_def)
next
  case s: 2
  show ?thesis
  proof (cases rule: run_actions_cases [of driver monitor_table])
    case (1 t e)
    then show ?thesis using assms s by (simp add: monitor_def Let_def)
  next
    case 2
    with s assms(2) obtain e where "convert_rows convert rows = Inl e" by auto
    then show ?thesis using assms 2 s
      by (simp add: monitor_def Let_def)
  qed
qed

lemma monitor_driver_start_fails:
  "driver ''webdriver.Chrome'' = Some e \<Longrightarrow>
   monitor driver rows convert keyword year = (Inl e, [''webdriver.Chrome''])"
  by (simp add: monitor_def)

lemma bombay_timeout_raises:
  assumes "truthy party_name" and "truthy date_arg"
    and "\<forall>a \<in> set [''chromium.launch'', ''browser.new_page'', ''page.goto'',
                     ''page.wait_for_load_state'', ''click Party'', ''fill Party Name'',
                     ''set date'', ''click Search'']. outcome s a = None"
    and "outcome s ''wait_for_selector #tb_causelist'' = Some PlaywrightTimeout"
  shows "fst (bombay_search s party_name date_arg) =
           Inl (Exception ''Bombay HC: #tb_causelist not found.'')"
proof -
  have 1: "run_actions (outcome s) [''chromium.launch'', ''browser.new_page''] =
             ([''chromium.launch'', ''browser.new_page''], None)"
    using assms(3) by (intro run_actions_ok) simp
  have 2: "run_actions (outcome s)
             [''page.goto'', ''page.wait_for_load_state'', ''click Party'',
              ''fill Party Name'', ''set date'', ''click Search''] =
           ([''page.goto'', ''page.wait_for_load_state'', ''click Party'',
              ''fill Party Name'', ''set date'', ''click Search''], None)"
    using assms(3) by (intro run_actions_ok) simp
  show ?thesis
    using assms(1,2,4) by (simp add: bombay_search_def Let_def 1 2 del: run_actions.simps)
qed

text \<open>
  Claim C3 on \<open>search\<close> of the Bombay scraper.  When the tab \<open>Party\<close> is not found, the
  click times out and the \<open>PlaywrightTimeout\<close> is raised past \<open>search\<close>, after the browser
  is closed; when the wait for the result container times out, the handler dumps the
  page and raises an \<open>Exception\<close> past \<open>search\<close>.  In neither case is the empty list
  returned, as the claim says.  \<open>monitor\<close> of the Delhi scraper, whose wait for the rows
  times out, returns the empty list.
\<close>

theorem bombay_search_raises_on_automation_failure:
  "bombay_search missing_tab_session (Some ''Ramesh Kumar'') (Some ''01-02-2024'') =
     (Inl PlaywrightTimeout,
      [''chromium.launch'', ''browser.new_page'', ''page.goto'', ''page.wait_for_load_state'',
       ''click Party'', ''browser.close'']) \<and>
   bombay_search timeout_session (Some ''Ramesh Kumar'') (Some ''01-02-2024'') =
     (Inl (Exception ''Bombay HC: #tb_causelist not found.''),
      [''chromium.launch'', ''browser.new_page'', ''page.goto'', ''page.wait_for_load_state'',
       ''click Party'', ''fill Party Name'', ''set date'', ''click Search'',
       ''wait_for_selector #tb_causelist'', ''page.content'', ''write bombay_debug.html'',
       ''browser.close'']) \<and>
   fst (monitor stalled_driver ([] :: unit list) (\<lambda>row. Inr None) ''Ramesh Kumar'' ''2024'') =
     Inr []"
proof -
  have "\<exists>a \<in> set (monitor_setup @ monitor_table). stalled_driver a \<noteq> None"
    by (simp add: stalled_driver_def monitor_table_def)
  then have "fst (monitor stalled_driver ([] :: unit list) (\<lambda>row. Inr None)
                    ''Ramesh Kumar'' ''2024'') = Inr []"
    by (intro monitor_failure_empty) (simp_all add: stalled_driver_def)
  then show ?thesis
    by (simp add: bombay_search_def timeout_session_def missing_tab_session_def)
qed

theorem bombay_search_raises_on_automation_failure_witness:
  "fst (bombay_search missing_tab_session (Some ''Ramesh Kumar'') (Some ''01-02-2024'')) \<noteq> Inr [] \<and>
   fst (bombay_search timeout_session (Some ''Ramesh Kumar'') (Some ''01-02-2024'')) \<noteq> Inr []"
  using bombay_search_raises_on_automation_failure by simp

subsection \<open>The guard of \<open>search\<close>\<close>

text \<open>
  When the party name or the date is \<open>None\<close> or empty, \<open>search\<close> of the Bombay scraper
  returns the empty list without a single browser call, and \<open>search\<close> of the Delhi
  scraper returns the empty list and leaves the world as it is: no request is issued
  and no file is written.
\<close>

lemma search_guard_returns_empty:
  assumes "\<not> truthy party_name \<or> \<not> truthy date_arg"
  shows "bombay_search s party_name date_arg = (Inr [], []) \<and>
         delhi_search http anchors scan party_name date_arg w = (Inr [], w)"
  using assms by (auto simp: bombay_search_def delhi_search_def)

lemma search_guard_missing_date:
  "bombay_search s (Some ''Ramesh Kumar'') None = (Inr [], []) \<and>
   delhi_search http anchors scan (Some ''Ramesh Kumar'') None w = (Inr [], w)"
  by (simp add: bombay_search_def delhi_search_def)

lemma supreme_search_missing_date:
  "\<not> truthy cause_date \<Longrightarrow>
   supreme_search strptime http open_pdf phase2 party_name cause_date w =
     (Inl (Exception ''Supreme Court requires a date (YYYY-MM-DD)''), w)"
  by (simp add: supreme_search_def)




subsection \<open>NCLAT: one run\<close>

lemma court_no_of_page:
  "extract_court_no_page1 [Some ''COURT - II 1. Ramesh Kumar vs State''] = Inr ''II''"
  by code_simp

lemma party_on_nclat_page:
  "nclat_page_matches (normalize_nclat ''Ramesh Kumar'') ''COURT - II 1. Ramesh Kumar vs State''"
  by code_simp

lemma no_judges_on_page:
  "extract_judge_blocks ''COURT - II 1. Ramesh Kumar vs State'' = []"
  by code_simp

lemma nclat_parties_of_row:
  "nclat_split_parties ''Ramesh Kumar vs State'' = (''Ramesh Kumar'', ''State'')"
  by code_simp

lemma search_party_in_a_pdf:
  "search_party_in_pdf one_row_llm [Some ''COURT - II 1. Ramesh Kumar vs State''] ''Ramesh Kumar'' =
     Inr [\<lparr> cm_case_number = ''CA(AT) 12/2024'', cm_parties = ''Ramesh Kumar vs State'',
            cm_appellant_counsel = ''Mr. A'', cm_respondent_counsel = ''Ms. B'',
            cm_court_no = ''II'', cm_judges = [] \<rparr>]"
  by (simp add: search_party_in_pdf_def court_no_of_page party_on_nclat_page no_judges_on_page
        ai_extract_def one_row_llm_def Let_def)

lemma search_party_in_empty_pdf:
  "search_party_in_pdf llm [] party_name = Inl IndexError"
  by (simp add: search_party_in_pdf_def extract_court_no_page1_def)

text \<open>
  Claim C1 on \<open>search_range\<close> of the NCLAT scraper, which has no handler round the scan of
  a PDF.  The cause list of 02/02/2024 names the party; asked for that day alone,
  \<open>search_range\<close> returns its record.  The cause list of 01/02/2024 has no page, so
  reading it raises \<open>IndexError\<close>; asked for both days, \<open>search_range\<close> raises and the
  record of 02/02/2024 is lost: the failure of one day aborts the range.
\<close>

theorem nclat_search_range_aborts_on_one_bad_day:
  "nclat_search_range feb_strptime feb_download_pdfs one_row_llm feb_open_pdf
     ''Ramesh Kumar'' ''02/02/2024'' ''02/02/2024'' =
     Inr [[(''case_number'', PStr ''CA(AT) 12/2024''),
           (''petitioner'', PStr ''Ramesh Kumar''),
           (''respondent'', PStr ''State''),
           (''advocates'', PStr ''A: Mr. A | R: Ms. B''),
           (''court'', PStr ''NCLAT''),
           (''judge'', PStr []),
           (''court_no'', PStr ''II''),
           (''date'', PNone)]] \<and>
   nclat_search_range feb_strptime feb_download_pdfs one_row_llm feb_open_pdf
     ''Ramesh Kumar'' ''01/02/2024'' ''02/02/2024'' = Inl IndexError"
  by (simp add: nclat_search_range_def feb_strptime_def feb_download_pdfs_def feb_open_pdf_def
        search_party_in_a_pdf search_party_in_empty_pdf nclat_record_def nclat_parties_of_row)

subsection \<open>Fields of the returned records\<close>

lemma final_record_no_none: "no_none (final_record c)"
  by (simp add: no_none_def final_record_def)

lemma bombay_search_results:
  assumes "bombay_search s party_name date_arg = (Inr rs, t)"
  shows "\<exists>cs. rs = map final_record cs"
proof (cases "\<not> truthy party_name \<or> \<not> truthy date_arg")
  case True
  then have "rs = []" using assms by (simp add: bombay_search_def)
  then show ?thesis by simp
next
  case False
  obtain t0 r0 where a0:
    "run_actions (outcome s) [''chromium.launch'', ''browser.new_page''] = (t0, r0)"
    by (cases "run_actions (outcome s) [''chromium.launch'', ''browser.new_page'']") blast
  obtain t1 r1 where a1:
    "run_actions (outcome s)
       [''page.goto'', ''page.wait_for_load_state'', ''click Party'',
        ''fill Party Name'', ''set date'', ''click Search''] = (t1, r1)"
    by (cases "run_actions (outcome s)
       [''page.goto'', ''page.wait_for_load_state'', ''click Party'',
        ''fill Party Name'', ''set date'', ''click Search'']") blast
  obtain b ct cn cs where w:
    "foldl (walk_node (container_text s) (the date_arg)) (''N/A'', ''N/A'', ''N/A'', []) (nodes s) =
       (b, ct, cn, cs)"
    by (cases "foldl (walk_node (container_text s) (the date_arg))
                 (''N/A'', ''N/A'', ''N/A'', []) (nodes s)") blast
  have "rs = map final_record cs"
    using assms False
    by (simp add: bombay_search_def Let_def a0 a1 w del: run_actions.simps
             split: option.splits exn.splits)
  then show ?thesis by blast
qed

text \<open>No field of a record returned by \<open>search\<close> of the Bombay scraper is \<open>None\<close>.\<close>

lemma bombay_search_no_none:
  assumes "bombay_search s party_name date_arg = (Inr rs, t)"
  shows "list_all no_none rs"
  using bombay_search_results [OF assms]
  by (auto simp: list_all_iff final_record_no_none)

text \<open>
  Claim C4 on the records of the NCLAT scraper.  Every dictionary that \<open>search_range\<close>
  builds from an extracted row has \<open>None\<close> under the key \<open>date\<close>, so it has a field that
  is \<open>None\<close>; the claim says that no field ever is.
\<close>

theorem nclat_record_date_is_none:
  "dict_get (nclat_record r) ''date'' = PNone \<and> \<not> no_none (nclat_record r)"
  by (simp add: nclat_record_def dict_get_def no_none_def split: prod.splits)

subsection \<open>Structured extraction\<close>

text \<open>\<open>ai_extract\<close> of the NCLAT scraper returns the empty list when the extraction raises.\<close>

lemma ai_extract_failure:
  "llm page_text party_name court_no judges = Inl e \<Longrightarrow>
   ai_extract llm page_text party_name court_no judges = []"
  by (simp add: ai_extract_def)

text \<open>
  A CERC page whose reply is not JSON (or is missing) adds no record and raises
  nothing.
\<close>

lemma cerc_page_not_json:
  assumes "llm (take 12000 (text_or_empty page)) = Inr raw"
    and "raw = None \<or> (\<exists>s. raw = Some s \<and> loads s = None)"
  shows "cerc_page llm loads party pdf_name i page = Inr []"
  using assms by (auto simp: cerc_page_def cerc_ai_extract_def Let_def)

lemma party_on_cerc_page: "str_in (lower ''NTPC'') (lower ''Petition of NTPC Ltd'')"
  by code_simp

lemma loads_object_reply: "loads_replies object_reply = Some (PDict [(''cases'', PList [])])"
  by (simp add: loads_replies_def)

lemma cerc_page_object_reply:
  "cerc_page object_llm loads_replies ''NTPC'' ''list.pdf'' i (Some ''Petition of NTPC Ltd'') =
     Inl AttributeError"
  by (simp add: cerc_page_def text_or_empty_def party_on_cerc_page cerc_ai_extract_def
        object_llm_def loads_object_reply py_iter_def case_of_page_def)

text \<open>
  Claim C8 at a CERC page that names the party and whose reply is the JSON object
  \<open>{"cases": []}\<close>: valid JSON that is not a list of case objects.  The loop over
  \<open>cases\<close> runs over the keys of the object, \<open>c.get\<close> fails on the string \<open>cases\<close>, and
  the \<open>AttributeError\<close> leaves the page, the PDF and \<open>search\<close>; the claim says that the
  page is skipped and nothing is raised.
\<close>

theorem cerc_schema_violation_raises:
  "cerc_page object_llm loads_replies ''NTPC'' ''list.pdf'' 1 (Some ''Petition of NTPC Ltd'') =
     Inl AttributeError \<and>
   cerc_search (\<lambda>month. Inr [''cerc_cause_lists/list.pdf'']) object_llm loads_replies
     (\<lambda>path. Inr [Some ''Petition of NTPC Ltd'']) ''March'' ''NTPC'' = Inl AttributeError"
proof -
  have "last_segment ''cerc_cause_lists/list.pdf'' = ''list.pdf''"
    by (simp add: last_segment_def)
  then show ?thesis
    by (simp add: cerc_search_def cerc_page_object_reply)
qed

end
